theory Spec2Isabelle
  imports Main
begin

section \<open>Data model\<close>

text \<open>
  The types of \<^verbatim>\<open>agent.ts\<close> and of the command-configuration module. A JavaScript
  value that may be \<^verbatim>\<open>undefined\<close> is an \<open>option\<close>; a call that may throw (or a
  promise that may reject) returns \<open>error + 'a\<close>, with \<open>Inl\<close> for the exception.
\<close>

datatype error = Thrown string | DuplicateNameError string

text \<open>\<^verbatim>\<open>vscode.ChatFollowup\<close>, by its prompt and its optional label.\<close>

record chat_followup =
  followup_prompt :: string
  followup_label :: "string option"

text \<open>
  \<^verbatim>\<open>SkillCommandResultMetadata\<close>: the two optional fields the agent populates, and
  the open part \<^verbatim>\<open>[key: string]: unknown\<close> as an association list.
\<close>

record skill_command_result_metadata =
  handlerChain :: "string list option"
  resultId :: "string option"
  additional :: "(string \<times> string) list"

text \<open>
  \<^verbatim>\<open>Omit<vscode.ChatResult, 'metadata'> & { metadata: SkillCommandResultMetadata }\<close>.
\<close>

record chat_result =
  errorDetails :: "string option"
  metadata :: skill_command_result_metadata

text \<open>
  \<^verbatim>\<open>SkillCommandResult\<close>. The handler result type of \<^verbatim>\<open>agent.ts\<close>,
  \<^verbatim>\<open>SlashCommandHandlerResult\<close>, is used there as such a result or \<^verbatim>\<open>undefined\<close>:
  it is \<open>skill_command_result option\<close> below.
\<close>

record skill_command_result =
  chatAgentResult :: chat_result
  followUp :: "chat_followup list option"

type_synonym slash_command_handler_result = "skill_command_result option"

text \<open>
  \<^verbatim>\<open>vscode.ChatContext\<close> (the history of the conversation, by its prompts) and
  \<^verbatim>\<open>vscode.CancellationToken\<close> (by its \<^verbatim>\<open>isCancellationRequested\<close> flag).
\<close>

type_synonym chat_context = "string list"
type_synonym cancellation_token = bool

text \<open>\<^verbatim>\<open>vscode.ChatRequest\<close>, by the two fields the handler reads.\<close>

datatype chat_request = ChatRequest (request_command: "string option") (prompt: string)

text \<open>
  \<^verbatim>\<open>AgentRequest\<close>. Its \<^verbatim>\<open>responseStream\<close> field is a reference to the output sink;
  what is written to the sink is recorded in the events of a run (below).
\<close>

record agent_request =
  command :: "string option"
  userPrompt :: string
  chatContext :: chat_context
  token :: cancellation_token

text \<open>
  \<^verbatim>\<open>IAgentRequestHandler\<close>: the two methods of an owner. An owner has private state
  (type \<open>'s\<close>, shared by the owners of one process), which a call may change; a call
  may throw.
\<close>

record 's agent_request_handler =
  handleRequestOrPrompt ::
    "agent_request \<Rightarrow> string list \<Rightarrow> 's \<Rightarrow> (error + slash_command_handler_result) \<times> 's"
  getFollowUpForLastHandledSlashCommand ::
    "chat_result \<Rightarrow> cancellation_token \<Rightarrow> 's \<Rightarrow> (error + chat_followup list option) \<times> 's"

text \<open>
  A slash command configuration, as far as \<^verbatim>\<open>agent.ts\<close> reads it: the listing
  reads \<^verbatim>\<open>config.shortDescription\<close>. The record is extensible, so every further
  field of the configuration is left open.
\<close>

record slash_command_config =
  shortDescription :: string

text \<open>\<^verbatim>\<open>vscode.ChatCommand\<close>, as built by \<^verbatim>\<open>getCommands\<close>.\<close>

record chat_command =
  name :: string
  description :: string

text \<open>
  A \<^verbatim>\<open>SlashCommandsOwner\<close>, as \<^verbatim>\<open>agent.ts\<close> uses it: besides the two methods of
  the interface it has \<^verbatim>\<open>getSlashCommands()\<close>, the entries \<^verbatim>\<open>[name, config]\<close> of
  the registry it holds, in the order of the registry.
\<close>

record ('s, 'c) slash_commands_owner = "'s agent_request_handler" +
  getSlashCommands :: "(string \<times> 'c slash_command_config_scheme) list"

text \<open>
  The three module-level owners of \<^verbatim>\<open>agent.ts\<close>. They are built from classes of
  other modules, so they are parameters here. The hidden and the user-visible owner are
  \<^verbatim>\<open>SlashCommandsOwner\<close>s, each with a registry of its own; the benchmarker is an
  \<^verbatim>\<open>AgentBenchmarker\<close>, used through the interface only.
\<close>

record ('s, 'c) agent =
  agentHiddenSlashCommandsOwner :: "('s, 'c) slash_commands_owner"
  agentBenchmarker :: "'s agent_request_handler"
  agentSlashCommandsOwner :: "('s, 'c) slash_commands_owner"

section \<open>The top-level router\<close>

text \<open>
  What a run does besides returning: it writes progress to the response stream, and it
  calls methods of the owners. The events of a run are listed in the order they happen.
\<close>

datatype owner_id = HiddenOwner | BenchmarkerOwner | UserVisibleOwner

datatype event =
    Progress string
  | Handle owner_id agent_request "string list"
  | FollowUpQuery owner_id chat_result

text \<open>
  \<^verbatim>\<open>Array.prototype.slice(0, end)\<close>: a negative \<^verbatim>\<open>end\<close> counts from the end
  of the array, and the bounds are clamped to the array.
\<close>

definition js_slice0 :: "'a list \<Rightarrow> int \<Rightarrow> 'a list" where
  "js_slice0 xs end =
     (let len = int (length xs);
          k = (if end < 0 then max (len + end) 0 else min end len)
      in take (nat k) xs)"

text \<open>
  The loop of \<^verbatim>\<open>handler\<close>:
  \<^verbatim>\<open>for (const handler of handlers) {
      handleResult = await handler.handleRequestOrPrompt(agentRequest, []);
      if (handleResult !== undefined) { break; } }\<close>
  An owner that throws ends the loop, and the run, with the exception.
\<close>

fun handlers_loop ::
  "(owner_id \<times> 's agent_request_handler) list \<Rightarrow> agent_request \<Rightarrow> 's \<Rightarrow>
     (error + slash_command_handler_result) \<times> event list \<times> 's" where
  "handlers_loop [] agentRequest s = (Inr None, [], s)"
| "handlers_loop ((i, h) # rest) agentRequest s =
     (case handleRequestOrPrompt h agentRequest [] s of
        (Inl e, s') \<Rightarrow> (Inl e, [Handle i agentRequest []], s')
      | (Inr (Some handleResult), s') \<Rightarrow>
          (Inr (Some handleResult), [Handle i agentRequest []], s')
      | (Inr None, s') \<Rightarrow>
          (case handlers_loop rest agentRequest s' of
             (r, evs, s'') \<Rightarrow> (r, Handle i agentRequest [] # evs, s'')))"

text \<open>The object literal \<^verbatim>\<open>agentRequest\<close> that \<^verbatim>\<open>handler\<close> builds from its arguments.\<close>

definition agentRequest_of ::
  "chat_request \<Rightarrow> chat_context \<Rightarrow> cancellation_token \<Rightarrow> agent_request" where
  "agentRequest_of request ctx tok =
     \<lparr>command = request_command request, userPrompt = prompt request,
      chatContext = ctx, token = tok\<rparr>"

text \<open>
  The array \<^verbatim>\<open>handlers\<close> (and \<^verbatim>\<open>providers\<close>) holds the three owners as
  \<^verbatim>\<open>IAgentRequestHandler\<close>s: \<open>agent_request_handler.truncate\<close> is this upcast, which
  keeps the two methods of the interface.
\<close>

text \<open>
  A run of \<^verbatim>\<open>handler\<close>: the value returned (or the exception), the object
  \<^verbatim>\<open>handleResult\<close> as the run leaves it (field \<open>handle_result\<close>; the assignment
  to its \<^verbatim>\<open>followUp\<close> field mutates the object the owner returned), the events,
  and the owners' state.
\<close>

record 's handler_run =
  returned :: "error + chat_result option"
  handle_result :: slash_command_handler_result
  events :: "event list"
  final :: 's

definition handler ::
  "('s, 'c) agent \<Rightarrow> int \<Rightarrow> chat_request \<Rightarrow> chat_context \<Rightarrow> cancellation_token \<Rightarrow> 's \<Rightarrow>
     's handler_run" where
  "handler ag maxFollowUps request ctx tok s =
     (let agentRequest = agentRequest_of request ctx tok;
          handlers = [(HiddenOwner, agent_request_handler.truncate (agentHiddenSlashCommandsOwner ag)),
                      (BenchmarkerOwner, agentBenchmarker ag),
                      (UserVisibleOwner, agent_request_handler.truncate (agentSlashCommandsOwner ag))];
          progress = Progress ''Processing request...''
      in case handlers_loop handlers agentRequest s of
           (Inl e, evs, s') \<Rightarrow>
             \<lparr>returned = Inl e, handle_result = None, events = progress # evs, final = s'\<rparr>
         | (Inr (Some handleResult), evs, s') \<Rightarrow>
             (let trimmed = handleResult
                    \<lparr>followUp := map_option (\<lambda>f. js_slice0 f maxFollowUps) (followUp handleResult)\<rparr>
              in \<lparr>returned = Inr (Some (chatAgentResult trimmed)), handle_result = Some trimmed,
                  events = progress # evs, final = s'\<rparr>)
         | (Inr None, evs, s') \<Rightarrow>
             \<lparr>returned = Inr None, handle_result = None, events = progress # evs, final = s'\<rparr>)"

text \<open>
  The loop of \<^verbatim>\<open>followUpProvider\<close>:
  \<^verbatim>\<open>for (const provider of providers) {
      followUp = provider.getFollowUpForLastHandledSlashCommand(result, token);
      if (followUp !== undefined) { break; } }\<close>
\<close>

fun providers_loop ::
  "(owner_id \<times> 's agent_request_handler) list \<Rightarrow> chat_result \<Rightarrow> cancellation_token \<Rightarrow> 's \<Rightarrow>
     (error + chat_followup list option) \<times> event list \<times> 's" where
  "providers_loop [] result tok s = (Inr None, [], s)"
| "providers_loop ((i, p) # rest) result tok s =
     (case getFollowUpForLastHandledSlashCommand p result tok s of
        (Inl e, s') \<Rightarrow> (Inl e, [FollowUpQuery i result], s')
      | (Inr (Some followUps), s') \<Rightarrow> (Inr (Some followUps), [FollowUpQuery i result], s')
      | (Inr None, s') \<Rightarrow>
          (case providers_loop rest result tok s' of
             (r, evs, s'') \<Rightarrow> (r, FollowUpQuery i result # evs, s'')))"

text \<open>
  \<^verbatim>\<open>followUp || []\<close>: an array, also the empty one, is truthy, so only
  \<^verbatim>\<open>undefined\<close> is replaced.
\<close>

definition or_empty :: "'a list option \<Rightarrow> 'a list" where
  "or_empty followUps = (case followUps of None \<Rightarrow> [] | Some l \<Rightarrow> l)"

text \<open>
  A run of \<^verbatim>\<open>followUpProvider\<close>. Its declared result type,
  \<^verbatim>\<open>vscode.ProviderResult<vscode.ChatFollowup[]>\<close>, admits \<^verbatim>\<open>undefined\<close>: the
  value provided is an \<open>option\<close>.
\<close>

record 's provider_run =
  provided :: "error + chat_followup list option"
  queries :: "event list"
  after :: 's

definition followUpProvider ::
  "('s, 'c) agent \<Rightarrow> chat_result \<Rightarrow> cancellation_token \<Rightarrow> 's \<Rightarrow> 's provider_run" where
  "followUpProvider ag result tok s =
     (let providers = [(HiddenOwner, agent_request_handler.truncate (agentHiddenSlashCommandsOwner ag)),
                       (BenchmarkerOwner, agentBenchmarker ag),
                       (UserVisibleOwner, agent_request_handler.truncate (agentSlashCommandsOwner ag))]
      in case providers_loop providers result tok s of
           (Inl e, evs, s') \<Rightarrow> \<lparr>provided = Inl e, queries = evs, after = s'\<rparr>
         | (Inr followUps, evs, s') \<Rightarrow>
             \<lparr>provided = Inr (Some (or_empty followUps)), queries = evs, after = s'\<rparr>)"

text \<open>
  \<^verbatim>\<open>getCommands\<close>:
  \<^verbatim>\<open>agentSlashCommandsOwner.getSlashCommands().map(([name, config]) =>
      ({ name: name, description: config.shortDescription }))\<close>
\<close>

definition getCommands :: "('s, 'c) agent \<Rightarrow> cancellation_token \<Rightarrow> chat_command list" where
  "getCommands ag tok =
     map (\<lambda>(name, config). \<lparr>name = name, description = shortDescription config\<rparr>)
       (getSlashCommands (agentSlashCommandsOwner ag))"

section \<open>Command configurations\<close>

text \<open>
  \<^verbatim>\<open>BaseCommandConfig\<close> with the discriminator \<^verbatim>\<open>type\<close> of
  \<^verbatim>\<open>WizardCommandConfig\<close>, \<^verbatim>\<open>SimpleCommandConfig\<close> and \<^verbatim>\<open>SkillCommandConfig\<close>.
  An optional field is an \<open>option\<close>.
\<close>

datatype command_type = wizard | simple | skill

record command_config =
  name :: string
  commandId :: string
  displayName :: string
  intentDescription :: "string option"
  requiresWorkspaceOpen :: "bool option"
  requiresAzureLogin :: "bool option"
  type :: command_type

section \<open>Command registry\<close>

text \<open>
  Modelled from the spec: \<^verbatim>\<open>get(name)\<close> of the command registry (class \<^verbatim>\<open>SlashCommandsOwner\<close> of module \<^verbatim>\<open>slashCommands\<close>, which is not
  among the sources): the entry registered under the name, or "not found". A
  registry holds its entries in registration order; \<open>key\<close> gives the name of an
  entry.
\<close>

definition get :: "('e \<Rightarrow> string) \<Rightarrow> 'e list \<Rightarrow> string \<Rightarrow> 'e option" where
  "get key reg n = find (\<lambda>e. key e = n) reg"

text \<open>
  Modelled from the spec: \<^verbatim>\<open>register(descriptor)\<close> of the command registry (the
  same missing class): it fails with \<open>DuplicateNameError\<close> when the name is already
  present; otherwise the entry is registered last.
\<close>

definition register :: "('e \<Rightarrow> string) \<Rightarrow> 'e \<Rightarrow> 'e list \<Rightarrow> error + 'e list" where
  "register key e reg =
     (case get key reg (key e) of
        Some _ \<Rightarrow> Inl (DuplicateNameError (key e))
      | None \<Rightarrow> Inr (reg @ [e]))"

text \<open>
  Modelled from the spec: the registrations that build a registry (made by the missing
  class when the module is loaded), one entry after the other; the first failure ends
  them.
\<close>

fun register_all :: "('e \<Rightarrow> string) \<Rightarrow> 'e list \<Rightarrow> 'e list \<Rightarrow> error + 'e list" where
  "register_all key [] reg = Inr reg"
| "register_all key (e # es) reg =
     (case register key e reg of
        Inl err \<Rightarrow> Inl err
      | Inr reg' \<Rightarrow> register_all key es reg')"

text \<open>
  \<^verbatim>\<open>Map.prototype.set\<close> and \<^verbatim>\<open>new Map(entries)\<close>, on a map held as the list of its
  entries in insertion order: setting a key that is present replaces its value and keeps
  its place, a new key comes last. The owners of \<^verbatim>\<open>agent.ts\<close> receive their commands
  as \<^verbatim>\<open>new Map([...])\<close>.
\<close>

fun map_set :: "(string \<times> 'v) list \<Rightarrow> string \<Rightarrow> 'v \<Rightarrow> (string \<times> 'v) list" where
  "map_set [] k v = [(k, v)]"
| "map_set ((k', v') # m) k v =
     (if k' = k then (k, v) # m else (k', v') # map_set m k v)"

definition new_Map :: "(string \<times> 'v) list \<Rightarrow> (string \<times> 'v) list" where
  "new_Map entries = foldl (\<lambda>m (k, v). map_set m k v) [] entries"

text \<open>
  Modelled from the spec: \<^verbatim>\<open>addInvokeableSlashCommands\<close> of the class
  \<^verbatim>\<open>SlashCommandsOwner\<close>, which is not among the sources. It registers the entries
  of the map it is given, in the order of the map, in the registry of the owner.
\<close>

definition addInvokeableSlashCommands ::
  "(string \<times> 'c slash_command_config_scheme) list \<Rightarrow> ('s, 'c, 'z) slash_commands_owner_scheme \<Rightarrow>
     error + ('s, 'c, 'z) slash_commands_owner_scheme" where
  "addInvokeableSlashCommands slashCommands ow =
     (case register_all fst slashCommands (getSlashCommands ow) of
        Inl e \<Rightarrow> Inl e
      | Inr reg \<Rightarrow> Inr (ow\<lparr>getSlashCommands := reg\<rparr>))"

section \<open>Owners, resolution and execution\<close>

text \<open>
  A slash command handler: it receives the request and the handler chain, acts on the
  world outside the agent (of type \<open>'w\<close>), and returns a result, \<^verbatim>\<open>undefined\<close>, or
  throws.
\<close>

type_synonym 'w slash_command_handler =
  "agent_request \<Rightarrow> string list \<Rightarrow> 'w \<Rightarrow> (error + slash_command_handler_result) \<times> 'w"

text \<open>
  Modelled from the spec: a fallback entry of a registry (the fallback handlers of the
  class \<^verbatim>\<open>SlashCommandsOwner\<close>, which is not among the sources): a name of the
  registry, or a directly attached handler function. In \<^verbatim>\<open>agent.ts\<close> the user-visible
  owner has \<^verbatim>\<open>noInput\<close> by name and \<^verbatim>\<open>default\<close> as an attached handler.
\<close>

datatype 'w fallback = ByName string | Attached "'w slash_command_handler"

text \<open>
  Modelled from the spec: the owner composer, the dispatch resolver and the execution
  coordinator are code of the module \<^verbatim>\<open>slashCommands\<close>, which is not among the
  sources.

  A command of a registry is a descriptor with what running it does: the handler of an
  external skill, wizard or simple command (\<open>Leaf\<close>), or a nested owner mounted as a
  sub-command (\<open>Mounted\<close>). An owner is a registry with the two optional fallback
  entries and the flag that disables intent detection.
\<close>

datatype 'w command =
    Leaf (descriptor: command_config) "'w slash_command_handler"
  | Mounted (descriptor: command_config) "'w owner"
and 'w owner =
    Owner (commands: "'w command list") (noInput: "'w fallback option")
      (default_fallback: "'w fallback option") (disableIntentDetection: bool)

text \<open>
  Modelled from the spec: what a dispatch consults besides the owner and the request. The
  pluggable classifier receives the prompt and the intent descriptions of the registered
  commands (each with the name of its command) and returns a name, "no match", or fails;
  the two flags say whether a workspace is open and whether the user is logged in;
  the capacity bounds the most-recent-results cache.
\<close>

record dispatch_env =
  classifier :: "string \<Rightarrow> (string \<times> string) list \<Rightarrow> error + string option"
  workspaceOpen :: bool
  azureLoggedIn :: bool
  cacheCapacity :: nat

text \<open>
  Modelled from the spec: the state of the execution coordinator. Result identifiers are
  generated from a counter; the cache holds the follow-ups of the most recent results,
  the newest first, keyed by result identifier; caught exceptions are logged.
\<close>

record 'w dispatch_state =
  world :: 'w
  nextResultId :: nat
  recentResults :: "(string \<times> chat_followup list option) list"
  errorLog :: "error list"

text \<open>
  Modelled from the spec: the white space that trimming a prompt removes (the resolver
  is not among the sources), as in \<^verbatim>\<open>String.prototype.trim\<close>: the white space and
  line terminator code points of ECMAScript, each as its UTF-8 bytes (tab, line feed,
  vertical tab, form feed, carriage return, space, U+00A0, U+1680, U+2000 to U+200A,
  U+2028, U+2029, U+202F, U+205F, U+3000, U+FEFF).
\<close>

definition white_space :: "string list" where
  "white_space =
     map (\<lambda>c. [c]) [CHR 0x09, CHR 0x0A, CHR 0x0B, CHR 0x0C, CHR 0x0D, CHR 0x20]
     @ [[CHR 0xC2, CHR 0xA0], [CHR 0xE1, CHR 0x9A, CHR 0x80]]
     @ map (\<lambda>c. [CHR 0xE2, CHR 0x80, c])
         [CHR 0x80, CHR 0x81, CHR 0x82, CHR 0x83, CHR 0x84, CHR 0x85, CHR 0x86, CHR 0x87,
          CHR 0x88, CHR 0x89, CHR 0x8A, CHR 0xA8, CHR 0xA9, CHR 0xAF]
     @ [[CHR 0xE2, CHR 0x81, CHR 0x9F], [CHR 0xE3, CHR 0x80, CHR 0x80],
        [CHR 0xEF, CHR 0xBB, CHR 0xBF]]"

text \<open>
  Modelled from the spec: removing from the front of a text every leading occurrence of
  one of the given byte sequences (part of the missing resolver's trimming).
\<close>

function strip :: "string list \<Rightarrow> string \<Rightarrow> string" where
  "strip ws s =
     (case find (\<lambda>w. w \<noteq> [] \<and> take (length w) s = w) ws of
        None \<Rightarrow> s
      | Some w \<Rightarrow> strip ws (drop (length w) s))"
  by pat_completeness auto
termination
proof (relation "measure (\<lambda>(ws, s). length s)", goal_cases)
  case 1
  show ?case by simp
next
  case (2 ws s w)
  then have "w \<noteq> []" and "take (length w) s = w"
    by (auto simp: find_Some_iff)
  then have "s \<noteq> []" by auto
  with \<open>w \<noteq> []\<close> show ?case by simp
qed

declare strip.simps [simp del]

text \<open>
  Modelled from the spec: the trimmed prompt (the resolver is not among the sources),
  as \<^verbatim>\<open>String.prototype.trim\<close> on UTF-8 text: white space is removed from the front
  and from the end.
\<close>

definition trim :: "string \<Rightarrow> string" where
  "trim s = rev (strip (map rev white_space) (rev (strip white_space s)))"

text \<open>
  Modelled from the spec: the four selecting rules of the dispatch resolver (module
  \<^verbatim>\<open>slashCommands\<close>, not among the sources), in their priority order.
\<close>

datatype rule = ExplicitCommand | NoInputDefault | IntentClassification | RegistryDefault

text \<open>
  Modelled from the spec: the lookup of a command of an owner's registry by its name
  (the registry is not among the sources).
\<close>

definition get_command :: "'w owner \<Rightarrow> string \<Rightarrow> 'w command option" where
  "get_command ow n = get (\<lambda>c. name (descriptor c)) (commands ow) n"

text \<open>
  Modelled from the spec: a directly attached fallback handler, as the command that is
  run (code of the missing class). The spec gives an attached handler no descriptor: it
  has no gating flags and no intent description. Its name is the name of the
  distinguished entry of the registry it is attached as, \<^verbatim>\<open>noInput\<close> or
  \<^verbatim>\<open>default\<close>.
\<close>

definition attached_descriptor :: "string \<Rightarrow> command_config" where
  "attached_descriptor entry =
     \<lparr>name = entry, commandId = [], displayName = entry, intentDescription = None,
      requiresWorkspaceOpen = None, requiresAzureLogin = None, type = skill\<rparr>"

text \<open>
  Modelled from the spec: the command a fallback entry stands for (the fallback
  handlers of the missing class): the registered command of that name, or the attached
  handler. \<open>entry\<close> is the distinguished entry, \<^verbatim>\<open>noInput\<close> or \<^verbatim>\<open>default\<close>.
\<close>

fun fallback_command :: "'w owner \<Rightarrow> string \<Rightarrow> 'w fallback \<Rightarrow> 'w command option" where
  "fallback_command ow entry (ByName n) = get_command ow n"
| "fallback_command ow entry (Attached h) = Some (Leaf (attached_descriptor entry) h)"

text \<open>
  Modelled from the spec: rule 1 of the missing resolver. The request's command is set
  and present in the registry.
\<close>

definition explicit_command :: "'w owner \<Rightarrow> agent_request \<Rightarrow> 'w command option" where
  "explicit_command ow rq =
     (case command rq of None \<Rightarrow> None | Some n \<Rightarrow> get_command ow n)"

text \<open>
  Modelled from the spec: rule 2 of the missing resolver. The command is unset, the
  trimmed prompt is empty and \<open>noInput\<close> is configured.
\<close>

definition no_input_default :: "'w owner \<Rightarrow> agent_request \<Rightarrow> 'w command option" where
  "no_input_default ow rq =
     (if command rq = None \<and> trim (userPrompt rq) = []
      then (case noInput ow of None \<Rightarrow> None | Some f \<Rightarrow> fallback_command ow ''noInput'' f)
      else None)"

text \<open>
  Modelled from the spec: what the missing resolver hands to the classifier, the intent
  descriptions of the registered commands, each with the name of its command.
\<close>

definition intent_candidates :: "'w owner \<Rightarrow> (string \<times> string) list" where
  "intent_candidates ow =
     concat (map (\<lambda>c. case intentDescription (descriptor c) of
                          None \<Rightarrow> []
                        | Some d \<Rightarrow> [(name (descriptor c), d)]) (commands ow))"

text \<open>
  A call of the classifier: the prompt and the candidates it was given. The calls a
  resolution makes are listed in order, as the events of a run of the router are.
\<close>

type_synonym classifier_call = "string \<times> (string \<times> string) list"

text \<open>
  Modelled from the spec: rule 3 of the missing resolver. Intent detection is not
  disabled and the prompt is not empty (an empty or blank prompt never reaches the
  classifier); a classifier that fails counts as "no match". The result is the command
  selected, if any, and the calls of the classifier made.
\<close>

definition intent_classification ::
  "dispatch_env \<Rightarrow> 'w owner \<Rightarrow> agent_request \<Rightarrow> 'w command option \<times> classifier_call list" where
  "intent_classification env ow rq =
     (if \<not> disableIntentDetection ow \<and> trim (userPrompt rq) \<noteq> []
      then ((case classifier env (userPrompt rq) (intent_candidates ow) of
               Inl e \<Rightarrow> None
             | Inr None \<Rightarrow> None
             | Inr (Some n) \<Rightarrow> get_command ow n),
            [(userPrompt rq, intent_candidates ow)])
      else (None, []))"

text \<open>
  Modelled from the spec: rule 4 of the missing resolver, the configured
  \<open>default\<close>.
\<close>

definition registry_default :: "'w owner \<Rightarrow> 'w command option" where
  "registry_default ow =
     (case default_fallback ow of None \<Rightarrow> None | Some f \<Rightarrow> fallback_command ow ''default'' f)"

text \<open>
  Modelled from the spec: a run of the dispatch resolver (not among the sources): the
  selected command with the rule that selected it, or \<open>None\<close> (unresolved), and the
  calls of the classifier the run made.
\<close>

record 'w resolver_run =
  selected :: "(rule \<times> 'w command) option"
  classifierCalls :: "classifier_call list"

text \<open>
  Modelled from the spec: the dispatch resolver (not among the sources). It tries the
  rules in their order and stops at the first that applies; the classifier is called by
  rule 3 only, so only when rules 1 and 2 did not apply.
\<close>

definition resolver :: "dispatch_env \<Rightarrow> 'w owner \<Rightarrow> agent_request \<Rightarrow> 'w resolver_run" where
  "resolver env ow rq =
     (case explicit_command ow rq of
        Some c \<Rightarrow> \<lparr>selected = Some (ExplicitCommand, c), classifierCalls = []\<rparr>
      | None \<Rightarrow>
     (case no_input_default ow rq of
        Some c \<Rightarrow> \<lparr>selected = Some (NoInputDefault, c), classifierCalls = []\<rparr>
      | None \<Rightarrow>
     (case intent_classification env ow rq of
        (Some c, calls) \<Rightarrow> \<lparr>selected = Some (IntentClassification, c), classifierCalls = calls\<rparr>
      | (None, calls) \<Rightarrow>
          \<lparr>selected = (case registry_default ow of
                         Some c \<Rightarrow> Some (RegistryDefault, c)
                       | None \<Rightarrow> None),
           classifierCalls = calls\<rparr>)))"

text \<open>
  Modelled from the spec: the selection of the missing resolver, which is what a
  dispatch acts on.
\<close>

definition resolve ::
  "dispatch_env \<Rightarrow> 'w owner \<Rightarrow> agent_request \<Rightarrow> (rule \<times> 'w command) option" where
  "resolve env ow rq = selected (resolver env ow rq)"

text \<open>
  Modelled from the spec: gating (code of the missing module). A selected command whose
  precondition fails is not run; the dispatch ends with a result that carries the
  explanation.
\<close>

definition gating :: "dispatch_env \<Rightarrow> command_config \<Rightarrow> string option" where
  "gating env d =
     (if requiresWorkspaceOpen d = Some True \<and> \<not> workspaceOpen env
      then Some ''This command requires an open workspace.''
      else if requiresAzureLogin d = Some True \<and> \<not> azureLoggedIn env
      then Some ''This command requires to be logged into Azure.''
      else None)"

text \<open>
  Modelled from the spec: the descriptive message result of a gating violation (built
  by code that is not among the sources), before the coordinator fills in its
  metadata.
\<close>

definition gating_result :: "string \<Rightarrow> skill_command_result" where
  "gating_result msg =
     \<lparr>chatAgentResult =
        \<lparr>errorDetails = Some msg,
         metadata = \<lparr>handlerChain = None, resultId = None, additional = []\<rparr>\<rparr>,
      followUp = None\<rparr>"

text \<open>
  Modelled from the spec: the text of a freshly generated result identifier (the
  generator is not among the sources), as the decimal numeral of a counter value.
\<close>

fun digits :: "nat \<Rightarrow> string" where
  "digits n =
     (if n < 10 then [char_of (48 + n)]
      else digits (n div 10) @ [char_of (48 + n mod 10)])"

declare digits.simps [simp del]

text \<open>
  The number a decimal numeral stands for; it reads \<open>digits\<close> back.
\<close>

definition undigits :: "string \<Rightarrow> nat" where
  "undigits s = foldl (\<lambda>a c. 10 * a + (of_char c - 48)) 0 s"

text \<open>
  Modelled from the spec: the execution coordinator (not among the sources) gives every result it returns the
  accumulated handler chain and a freshly generated identifier, whatever the handler
  supplied, and enters the result's follow-ups into the cache under that identifier.
\<close>

definition record_result ::
  "dispatch_env \<Rightarrow> string list \<Rightarrow> skill_command_result \<Rightarrow> 'w dispatch_state \<Rightarrow>
     slash_command_handler_result \<times> 'w dispatch_state" where
  "record_result env chain r st =
     (let rid = digits (nextResultId st);
          r' = r\<lparr>chatAgentResult := (chatAgentResult r)
                  \<lparr>metadata := (metadata (chatAgentResult r))
                     \<lparr>handlerChain := Some chain, resultId := Some rid\<rparr>\<rparr>\<rparr>
      in (Some r',
          st\<lparr>nextResultId := Suc (nextResultId st),
             recentResults := take (cacheCapacity env) ((rid, followUp r') # recentResults st)\<rparr>))"

text \<open>
  Modelled from the spec: what a nested dispatch (missing code) added to the running chain, read off
  the result it returned; the coordinator of the outer level splices it onto its chain.
\<close>

definition chain_fragment :: "string list \<Rightarrow> skill_command_result \<Rightarrow> string list" where
  "chain_fragment chain r =
     (case handlerChain (metadata (chatAgentResult r)) of
        None \<Rightarrow> []
      | Some c \<Rightarrow> drop (length chain) c)"

text \<open>
  Modelled from the spec: one dispatch of an owner, \<^verbatim>\<open>handleRequestOrPrompt\<close> of the
  class \<^verbatim>\<open>SlashCommandsOwner\<close>, which is not among the sources. The resolver selects
  a command and the coordinator appends its name to the chain. A gating violation ends
  the dispatch with its explanation, the command is not run; the spec's invariant that
  the first element of the chain of a result is a choice of the top-level router holds
  of such a result too, so the name of the selected command is on its chain. Otherwise
  the command is run. A handler that throws is caught and logged, and the dispatch is
  unresolved. A mounted owner is dispatched with the extended chain. Every result
  returned goes through \<open>record_result\<close>.
\<close>

function dispatch ::
  "dispatch_env \<Rightarrow> 'w owner \<Rightarrow> agent_request \<Rightarrow> string list \<Rightarrow> 'w dispatch_state \<Rightarrow>
     slash_command_handler_result \<times> 'w dispatch_state" where
  "dispatch env ow rq chain st =
     (case resolve env ow rq of
        None \<Rightarrow> (None, st)
      | Some (rl, c) \<Rightarrow>
          (case gating env (descriptor c) of
             Some msg \<Rightarrow>
               record_result env (chain @ [name (descriptor c)]) (gating_result msg) st
           | None \<Rightarrow>
               (case c of
                  Leaf d h \<Rightarrow>
                    (case h rq (chain @ [name d]) (world st) of
                       (Inl e, w') \<Rightarrow> (None, st\<lparr>world := w', errorLog := errorLog st @ [e]\<rparr>)
                     | (Inr None, w') \<Rightarrow> (None, st\<lparr>world := w'\<rparr>)
                     | (Inr (Some r), w') \<Rightarrow>
                         record_result env (chain @ [name d]) r (st\<lparr>world := w'\<rparr>))
                | Mounted d sub \<Rightarrow>
                    (case dispatch env sub rq (chain @ [name d]) st of
                       (None, st') \<Rightarrow> (None, st')
                     | (Some r, st') \<Rightarrow>
                         record_result env
                           ((chain @ [name d]) @ chain_fragment (chain @ [name d]) r) r st'))))"
  by pat_completeness auto

text \<open>
  The recursion of \<open>dispatch\<close> descends into an owner mounted in the selected command,
  which is a part of the dispatched owner.
\<close>

lemma get_in_set: "get key reg n = Some e \<Longrightarrow> e \<in> set reg"
  by (auto simp: get_def find_Some_iff)

lemma size_in_commands: "c \<in> set (commands ow) \<Longrightarrow> size c < size ow"
  by (cases ow)
    (auto simp: less_Suc_eq_le
      dest!: size_list_estimation' [where f = size and y = "size c", OF _ order_refl])

lemma size_fallback_command:
  "fallback_command ow entry f = Some c \<Longrightarrow>
     noInput ow = Some f \<or> default_fallback ow = Some f \<Longrightarrow> size c < size ow"
proof (cases f)
  case (ByName n)
  assume "fallback_command ow entry f = Some c"
  with ByName have "c \<in> set (commands ow)"
    by (auto simp: get_command_def dest: get_in_set)
  then show ?thesis by (rule size_in_commands)
next
  case (Attached h)
  assume "fallback_command ow entry f = Some c"
     and "noInput ow = Some f \<or> default_fallback ow = Some f"
  with Attached show ?thesis by (cases ow) auto
qed

lemma resolve_cases:
  "resolve env ow rq = Some (rl, c) \<Longrightarrow>
     c \<in> set (commands ow)
     \<or> (\<exists>f. noInput ow = Some f \<and> fallback_command ow ''noInput'' f = Some c)
     \<or> (\<exists>f. default_fallback ow = Some f \<and> fallback_command ow ''default'' f = Some c)"
  by (auto simp: resolve_def resolver_def explicit_command_def no_input_default_def
        intent_classification_def registry_default_def get_command_def
      split: option.splits if_splits sum.splits prod.splits
      dest: get_in_set)

lemma size_resolve: "resolve env ow rq = Some (rl, c) \<Longrightarrow> size c < size ow"
  using resolve_cases [of env ow rq rl c]
  by (auto dest: size_in_commands size_fallback_command)

termination dispatch
proof (relation "measure (\<lambda>(env, ow, rq, chain, st). size ow)", goal_cases)
  case 1
  show ?case by simp
next
  case (2 env ow rq chain st x2 rl c d sub)
  then show ?case using size_resolve [of env ow rq rl c] by simp
qed

declare dispatch.simps [simp del]





text \<open>
  Modelled from the spec: the follow-up lookup of the execution coordinator
  (\<^verbatim>\<open>getFollowUpForLastHandledSlashCommand\<close> of the missing class), by the
  result identifier in the metadata of the result passed back. An identifier that is
  absent, from the result or from the cache, gives "no follow-up".
\<close>

definition cached_followUp :: "chat_result \<Rightarrow> 'w dispatch_state \<Rightarrow> chat_followup list option" where
  "cached_followUp result st =
     (case resultId (metadata result) of
        None \<Rightarrow> None
      | Some rid \<Rightarrow>
          (case map_of (recentResults st) rid of
             None \<Rightarrow> None
           | Some entry \<Rightarrow> entry))"

text \<open>
  Modelled from the spec: an owner of the missing class \<^verbatim>\<open>SlashCommandsOwner\<close> as
  the top-level router sees it, through the two methods of
  \<^verbatim>\<open>IAgentRequestHandler\<close>.
\<close>

definition slashCommandsOwner ::
  "dispatch_env \<Rightarrow> 'w owner \<Rightarrow> 'w dispatch_state agent_request_handler" where
  "slashCommandsOwner env ow =
     \<lparr>handleRequestOrPrompt =
        (\<lambda>rq chain st. case dispatch env ow rq chain st of (r, st') \<Rightarrow> (Inr r, st')),
      getFollowUpForLastHandledSlashCommand =
        (\<lambda>result tok st. (Inr (cached_followUp result st), st))\<rparr>"

text \<open>
  Modelled from the spec: sequential dispatches of one process (run by the missing
  owner code), each started with the empty chain, as the router starts them.
\<close>

fun dispatches ::
  "dispatch_env \<Rightarrow> ('w owner \<times> agent_request) list \<Rightarrow> 'w dispatch_state \<Rightarrow>
     slash_command_handler_result list \<times> 'w dispatch_state" where
  "dispatches env [] st = ([], st)"
| "dispatches env ((ow, rq) # rest) st =
     (case dispatch env ow rq [] st of
        (r, st') \<Rightarrow>
          (case dispatches env rest st' of
             (rs, st'') \<Rightarrow> (r # rs, st'')))"

text \<open>
  The result identifiers observed on a list of dispatch results, in order.
\<close>

definition result_ids :: "slash_command_handler_result list \<Rightarrow> string list" where
  "result_ids rs =
     concat (map (\<lambda>r. case r of
                         None \<Rightarrow> []
                       | Some x \<Rightarrow>
                           (case resultId (metadata (chatAgentResult x)) of
                              None \<Rightarrow> []
                            | Some rid \<Rightarrow> [rid])) rs)"

text \<open>
  Two notions for the proofs about result identifiers: the identifier of a result, and
  every identifier of a list, is the numeral of a counter value in a given range.
\<close>

definition id_in_range :: "slash_command_handler_result \<Rightarrow> nat \<Rightarrow> nat \<Rightarrow> bool" where
  "id_in_range out lo hi =
     (case out of
        None \<Rightarrow> True
      | Some r \<Rightarrow> (\<exists>k. resultId (metadata (chatAgentResult r)) = Some (digits k) \<and> lo \<le> k \<and> k < hi))"

definition ids_in_range :: "string list \<Rightarrow> nat \<Rightarrow> nat \<Rightarrow> bool" where
  "ids_in_range ids lo hi = (\<forall>i \<in> set ids. \<exists>k. i = digits k \<and> lo \<le> k \<and> k < hi)"

section \<open>Example values\<close>

text \<open>
  Owners of the simplest kinds, over a state that counts the calls made: one that never
  resolves, one that always resolves to a given result, one that throws.
\<close>

definition unresolved_owner :: "nat agent_request_handler" where
  "unresolved_owner =
     \<lparr>handleRequestOrPrompt = (\<lambda>rq chain s. (Inr None, Suc s)),
      getFollowUpForLastHandledSlashCommand = (\<lambda>result tok s. (Inr None, Suc s))\<rparr>"

definition resolving_owner :: "skill_command_result \<Rightarrow> nat agent_request_handler" where
  "resolving_owner r =
     \<lparr>handleRequestOrPrompt = (\<lambda>rq chain s. (Inr (Some r), Suc s)),
      getFollowUpForLastHandledSlashCommand = (\<lambda>result tok s. (Inr (followUp r), Suc s))\<rparr>"

definition throwing_owner :: "nat agent_request_handler" where
  "throwing_owner =
     \<lparr>handleRequestOrPrompt = (\<lambda>rq chain s. (Inl (Thrown ''unavailable''), Suc s)),
      getFollowUpForLastHandledSlashCommand =
        (\<lambda>result tok s. (Inl (Thrown ''unavailable''), Suc s))\<rparr>"

definition example_followUps :: "chat_followup list" where
  "example_followUps =
     map (\<lambda>p. \<lparr>followup_prompt = p, followup_label = None\<rparr>)
       [''deploy it'', ''show logs'', ''add a trigger'', ''open in portal'', ''delete it'']"

definition example_result :: "string \<Rightarrow> chat_followup list option \<Rightarrow> skill_command_result" where
  "example_result tag fs =
     \<lparr>chatAgentResult =
        \<lparr>errorDetails = None,
         metadata = \<lparr>handlerChain = None, resultId = None, additional = [(''tag'', tag)]\<rparr>\<rparr>,
      followUp = fs\<rparr>"

definition example_slash_commands :: "(string \<times> slash_command_config) list" where
  "example_slash_commands =
     [(''functions'', \<lparr>shortDescription = ''Work with Azure Functions''\<rparr>),
      (''storage'', \<lparr>shortDescription = ''Work with Azure Storage''\<rparr>),
      (''help'', \<lparr>shortDescription = ''Get help''\<rparr>)]"

definition example_hidden_slash_commands :: "(string \<times> slash_command_config) list" where
  "example_hidden_slash_commands =
     [(''toggleRag'', \<lparr>shortDescription = ''Toggle RAG''\<rparr>),
      (''getRagStatus'', \<lparr>shortDescription = ''Get the RAG status''\<rparr>)]"

text \<open>An owner with the two methods of a given handler and a given registry.\<close>

definition with_registry ::
  "'s agent_request_handler \<Rightarrow> (string \<times> 'c slash_command_config_scheme) list \<Rightarrow>
     ('s, 'c) slash_commands_owner" where
  "with_registry h reg =
     \<lparr>handleRequestOrPrompt = handleRequestOrPrompt h,
      getFollowUpForLastHandledSlashCommand = getFollowUpForLastHandledSlashCommand h,
      getSlashCommands = reg\<rparr>"

definition example_agent ::
  "nat agent_request_handler \<Rightarrow> nat agent_request_handler \<Rightarrow> nat agent_request_handler \<Rightarrow>
     (nat, unit) agent" where
  "example_agent h b u =
     \<lparr>agentHiddenSlashCommandsOwner = with_registry h example_hidden_slash_commands,
      agentBenchmarker = b,
      agentSlashCommandsOwner = with_registry u example_slash_commands\<rparr>"

definition example_request :: chat_request where
  "example_request = ChatRequest None ''create a function app''"

text \<open>
  An environment, owners and requests for the dispatch: a classifier stub that matches a
  prompt equal to an intent description, a user-visible owner with a mounted owner, a
  command that requires a login, and a hidden owner without intent detection.
\<close>

definition example_env :: dispatch_env where
  "example_env =
     \<lparr>classifier = (\<lambda>p candidates. Inr (map_option fst (find (\<lambda>cd. snd cd = p) candidates))),
      workspaceOpen = True, azureLoggedIn = False, cacheCapacity = 2\<rparr>"

definition example_config :: "string \<Rightarrow> bool option \<Rightarrow> command_config" where
  "example_config n login =
     \<lparr>name = n, commandId = ''azureAgent.'' @ n, displayName = n,
      intentDescription = Some n, requiresWorkspaceOpen = None, requiresAzureLogin = login,
      type = skill\<rparr>"

definition example_handler ::
  "string \<Rightarrow> agent_request \<Rightarrow> string list \<Rightarrow> nat \<Rightarrow> (error + slash_command_handler_result) \<times> nat" where
  "example_handler tag rq chain w = (Inr (Some (example_result tag (Some example_followUps))), Suc w)"

definition failing_handler ::
  "agent_request \<Rightarrow> string list \<Rightarrow> nat \<Rightarrow> (error + slash_command_handler_result) \<times> nat" where
  "failing_handler rq chain w = (Inl (Thrown ''deployment failed''), Suc w)"

definition functions_owner :: "nat owner" where
  "functions_owner =
     Owner [Leaf (example_config ''create'' None) (example_handler ''created''),
            Leaf (example_config ''deploy'' None) failing_handler,
            Leaf (example_config ''logs'' (Some True)) (example_handler ''logs'')]
       None None False"

definition user_owner :: "nat owner" where
  "user_owner =
     Owner [Mounted (example_config ''functions'' None) functions_owner,
            Leaf (example_config ''help'' None) (example_handler ''help'')]
       (Some (ByName ''help''))
       (Some (Attached (example_handler ''learn'')))
       False"

definition hidden_owner :: "nat owner" where
  "hidden_owner =
     Owner [Leaf (example_config ''toggleRag'' None) (example_handler ''rag'')] None None True"

definition initial_state :: "nat dispatch_state" where
  "initial_state = \<lparr>world = 0, nextResultId = 0, recentResults = [], errorLog = []\<rparr>"

definition example_agent_request :: "string option \<Rightarrow> string \<Rightarrow> agent_request" where
  "example_agent_request c p = \<lparr>command = c, userPrompt = p, chatContext = [], token = False\<rparr>"

text \<open>
  A user-visible registry whose configurations carry the fields of
  \<^verbatim>\<open>BaseCommandConfig\<close> besides \<^verbatim>\<open>shortDescription\<close>, and an agent with it.
\<close>

definition described_slash_commands ::
  "(string \<times> command_config slash_command_config_scheme) list" where
  "described_slash_commands =
     [(''functions'',
       \<lparr>shortDescription = ''Work with Azure Functions'',
        \<dots> = \<lparr>name = ''functions'', commandId = ''azureAgent.functions'',
               displayName = ''Azure Functions'', intentDescription = None,
               requiresWorkspaceOpen = None, requiresAzureLogin = None, type = skill\<rparr>\<rparr>)]"

definition described_agent :: "(nat, command_config) agent" where
  "described_agent =
     \<lparr>agentHiddenSlashCommandsOwner = with_registry unresolved_owner [],
      agentBenchmarker = unresolved_owner,
      agentSlashCommandsOwner = with_registry unresolved_owner described_slash_commands\<rparr>"


section \<open>Properties of the top-level router\<close>

lemma truncate_methods:
  "handleRequestOrPrompt (agent_request_handler.truncate h) = handleRequestOrPrompt h"
  "getFollowUpForLastHandledSlashCommand (agent_request_handler.truncate h)
     = getFollowUpForLastHandledSlashCommand h"
  by (simp_all add: agent_request_handler.truncate_def)



lemma handlers_loop_three:
  "handlers_loop [(i1, h1), (i2, h2), (i3, h3)] rq s =
     (case handleRequestOrPrompt h1 rq [] s of
        (Inl e, s1) \<Rightarrow> (Inl e, [Handle i1 rq []], s1)
      | (Inr (Some x), s1) \<Rightarrow> (Inr (Some x), [Handle i1 rq []], s1)
      | (Inr None, s1) \<Rightarrow>
          (case handleRequestOrPrompt h2 rq [] s1 of
             (Inl e, s2) \<Rightarrow> (Inl e, [Handle i1 rq [], Handle i2 rq []], s2)
           | (Inr (Some x), s2) \<Rightarrow> (Inr (Some x), [Handle i1 rq [], Handle i2 rq []], s2)
           | (Inr None, s2) \<Rightarrow>
               (case handleRequestOrPrompt h3 rq [] s2 of
                  (Inl e, s3) \<Rightarrow> (Inl e, [Handle i1 rq [], Handle i2 rq [], Handle i3 rq []], s3)
                | (Inr r, s3) \<Rightarrow> (Inr r, [Handle i1 rq [], Handle i2 rq [], Handle i3 rq []], s3))))"
  by (simp split: prod.splits sum.splits option.splits)

lemma providers_loop_three:
  "providers_loop [(i1, h1), (i2, h2), (i3, h3)] res tok s =
     (case getFollowUpForLastHandledSlashCommand h1 res tok s of
        (Inl e, s1) \<Rightarrow> (Inl e, [FollowUpQuery i1 res], s1)
      | (Inr (Some x), s1) \<Rightarrow> (Inr (Some x), [FollowUpQuery i1 res], s1)
      | (Inr None, s1) \<Rightarrow>
          (case getFollowUpForLastHandledSlashCommand h2 res tok s1 of
             (Inl e, s2) \<Rightarrow> (Inl e, [FollowUpQuery i1 res, FollowUpQuery i2 res], s2)
           | (Inr (Some x), s2) \<Rightarrow> (Inr (Some x), [FollowUpQuery i1 res, FollowUpQuery i2 res], s2)
           | (Inr None, s2) \<Rightarrow>
               (case getFollowUpForLastHandledSlashCommand h3 res tok s2 of
                  (Inl e, s3) \<Rightarrow> (Inl e, [FollowUpQuery i1 res, FollowUpQuery i2 res, FollowUpQuery i3 res], s3)
                | (Inr r, s3) \<Rightarrow> (Inr r, [FollowUpQuery i1 res, FollowUpQuery i2 res, FollowUpQuery i3 res], s3))))"
  by (simp split: prod.splits sum.splits option.splits)

text \<open>
  Claim C1. For every request the router tries the hidden owner, then the benchmarker,
  then the user-visible owner, each after the one before has returned, and returns the
  chat result of the first owner that returns a result other than \<^verbatim>\<open>undefined\<close>;
  the owners after that one are not invoked. The events of every run are the progress
  message followed by the invocations of the first \<open>k\<close> owners in this order.
\<close>

theorem handler_first_owner_wins:
  fixes ag :: "('s, 'c) agent" and request ctx tok maxFollowUps s
  defines "H \<equiv> handleRequestOrPrompt (agentHiddenSlashCommandsOwner ag)"
      and "B \<equiv> handleRequestOrPrompt (agentBenchmarker ag)"
      and "U \<equiv> handleRequestOrPrompt (agentSlashCommandsOwner ag)"
      and "rq \<equiv> agentRequest_of request ctx tok"
      and "R \<equiv> handler ag maxFollowUps request ctx tok s"
      and "P \<equiv> Progress ''Processing request...''"
  shows
    "(H rq [] s = (Inr (Some x), s1) \<longrightarrow>
        returned R = Inr (Some (chatAgentResult x)) \<and>
        events R = [P, Handle HiddenOwner rq []] \<and> final R = s1)
     \<and> (H rq [] s = (Inr None, s1) \<and> B rq [] s1 = (Inr (Some x), s2) \<longrightarrow>
        returned R = Inr (Some (chatAgentResult x)) \<and>
        events R = [P, Handle HiddenOwner rq [], Handle BenchmarkerOwner rq []] \<and> final R = s2)
     \<and> (H rq [] s = (Inr None, s1) \<and> B rq [] s1 = (Inr None, s2) \<and>
        U rq [] s2 = (Inr (Some x), s3) \<longrightarrow>
        returned R = Inr (Some (chatAgentResult x)) \<and>
        events R = [P, Handle HiddenOwner rq [], Handle BenchmarkerOwner rq [],
                    Handle UserVisibleOwner rq []] \<and> final R = s3)
     \<and> (\<exists>k. 1 \<le> k \<and> k \<le> 3 \<and>
          events R = P # map (\<lambda>i. Handle i rq [])
                           (take k [HiddenOwner, BenchmarkerOwner, UserVisibleOwner]))"
proof -
  note loop = handlers_loop_three [of HiddenOwner
      "agent_request_handler.truncate (agentHiddenSlashCommandsOwner ag)"
      BenchmarkerOwner "agentBenchmarker ag" UserVisibleOwner
      "agent_request_handler.truncate (agentSlashCommandsOwner ag)" rq s, unfolded truncate_methods]
  have c1: "H rq [] s = (Inr (Some x), s1) \<longrightarrow>
        returned R = Inr (Some (chatAgentResult x)) \<and>
        events R = [P, Handle HiddenOwner rq []] \<and> final R = s1"
    unfolding R_def handler_def Let_def H_def P_def rq_def [symmetric] loop
    by simp
  have c2: "H rq [] s = (Inr None, s1) \<and> B rq [] s1 = (Inr (Some x), s2) \<longrightarrow>
        returned R = Inr (Some (chatAgentResult x)) \<and>
        events R = [P, Handle HiddenOwner rq [], Handle BenchmarkerOwner rq []] \<and> final R = s2"
    unfolding R_def handler_def Let_def H_def B_def P_def rq_def [symmetric] loop
    by simp
  have c3: "H rq [] s = (Inr None, s1) \<and> B rq [] s1 = (Inr None, s2) \<and>
        U rq [] s2 = (Inr (Some x), s3) \<longrightarrow>
        returned R = Inr (Some (chatAgentResult x)) \<and>
        events R = [P, Handle HiddenOwner rq [], Handle BenchmarkerOwner rq [],
                    Handle UserVisibleOwner rq []] \<and> final R = s3"
    unfolding R_def handler_def Let_def H_def B_def U_def P_def rq_def [symmetric] loop
    by simp
  have "events R = P # map (\<lambda>i. Handle i rq []) (take 1 [HiddenOwner, BenchmarkerOwner, UserVisibleOwner])
      \<or> events R = P # map (\<lambda>i. Handle i rq []) (take 2 [HiddenOwner, BenchmarkerOwner, UserVisibleOwner])
      \<or> events R = P # map (\<lambda>i. Handle i rq []) (take 3 [HiddenOwner, BenchmarkerOwner, UserVisibleOwner])"
    unfolding R_def handler_def Let_def P_def rq_def [symmetric] loop
    by (simp split: prod.splits sum.splits option.splits)
  then have c4: "\<exists>k. 1 \<le> k \<and> k \<le> 3 \<and>
          events R = P # map (\<lambda>i. Handle i rq [])
                           (take k [HiddenOwner, BenchmarkerOwner, UserVisibleOwner])"
  proof (elim disjE)
    assume "events R = P # map (\<lambda>i. Handle i rq []) (take 1 [HiddenOwner, BenchmarkerOwner, UserVisibleOwner])"
    then show ?thesis by (intro exI [of _ 1]) simp
  next
    assume "events R = P # map (\<lambda>i. Handle i rq []) (take 2 [HiddenOwner, BenchmarkerOwner, UserVisibleOwner])"
    then show ?thesis by (intro exI [of _ 2]) simp
  next
    assume "events R = P # map (\<lambda>i. Handle i rq []) (take 3 [HiddenOwner, BenchmarkerOwner, UserVisibleOwner])"
    then show ?thesis by (intro exI [of _ 3]) simp
  qed
  from c1 c2 c3 c4 show ?thesis by blast
qed


theorem handler_first_owner_wins_witness:
  "returned (handler (example_agent (resolving_owner (example_result ''hidden'' None))
       unresolved_owner (resolving_owner (example_result ''user'' None))) 3 example_request [] False 0)
     = Inr (Some (chatAgentResult (example_result ''hidden'' None)))
   \<and> events (handler (example_agent (resolving_owner (example_result ''hidden'' None))
       unresolved_owner (resolving_owner (example_result ''user'' None))) 3 example_request [] False 0)
     = [Progress ''Processing request...'',
        Handle HiddenOwner (agentRequest_of example_request [] False) []]
   \<and> returned (handler (example_agent unresolved_owner
       (resolving_owner (example_result ''benchmark'' None))
       (resolving_owner (example_result ''user'' None))) 3 example_request [] False 0)
     = Inr (Some (chatAgentResult (example_result ''benchmark'' None)))
   \<and> events (handler (example_agent unresolved_owner
       (resolving_owner (example_result ''benchmark'' None))
       (resolving_owner (example_result ''user'' None))) 3 example_request [] False 0)
     = [Progress ''Processing request...'',
        Handle HiddenOwner (agentRequest_of example_request [] False) [],
        Handle BenchmarkerOwner (agentRequest_of example_request [] False) []]
   \<and> returned (handler (example_agent unresolved_owner unresolved_owner
       (resolving_owner (example_result ''user'' None))) 3 example_request [] False 0)
     = Inr (Some (chatAgentResult (example_result ''user'' None)))
   \<and> events (handler (example_agent unresolved_owner unresolved_owner
       (resolving_owner (example_result ''user'' None))) 3 example_request [] False 0)
     = [Progress ''Processing request...'',
        Handle HiddenOwner (agentRequest_of example_request [] False) [],
        Handle BenchmarkerOwner (agentRequest_of example_request [] False) [],
        Handle UserVisibleOwner (agentRequest_of example_request [] False) []]"
proof -
  let ?hid = "resolving_owner (example_result ''hidden'' None)"
  let ?ben = "resolving_owner (example_result ''benchmark'' None)"
  let ?usr = "resolving_owner (example_result ''user'' None)"
  let ?rq = "agentRequest_of example_request [] False"
  have h1: "handleRequestOrPrompt (agentHiddenSlashCommandsOwner (example_agent ?hid unresolved_owner ?usr))
      ?rq [] 0 = (Inr (Some (example_result ''hidden'' None)), 1)"
    by (simp add: example_agent_def with_registry_def resolving_owner_def)
  have h2: "handleRequestOrPrompt (agentHiddenSlashCommandsOwner (example_agent unresolved_owner ?ben ?usr))
      ?rq [] 0 = (Inr None, 1) \<and>
     handleRequestOrPrompt (agentBenchmarker (example_agent unresolved_owner ?ben ?usr))
      ?rq [] 1 = (Inr (Some (example_result ''benchmark'' None)), 2)"
    by (simp add: example_agent_def with_registry_def resolving_owner_def unresolved_owner_def)
  have h3: "handleRequestOrPrompt (agentHiddenSlashCommandsOwner (example_agent unresolved_owner unresolved_owner ?usr))
      ?rq [] 0 = (Inr None, 1) \<and>
     handleRequestOrPrompt (agentBenchmarker (example_agent unresolved_owner unresolved_owner ?usr))
      ?rq [] 1 = (Inr None, 2) \<and>
     handleRequestOrPrompt (agentSlashCommandsOwner (example_agent unresolved_owner unresolved_owner ?usr))
      ?rq [] 2 = (Inr (Some (example_result ''user'' None)), 3)"
    by (simp add: example_agent_def with_registry_def resolving_owner_def unresolved_owner_def)
  note t = handler_first_owner_wins
  from h1 t [of "example_agent ?hid unresolved_owner ?usr" example_request "[]" False 0
      "example_result ''hidden'' None" 1 3]
  have w1: "returned (handler (example_agent ?hid unresolved_owner ?usr) 3 example_request [] False 0)
      = Inr (Some (chatAgentResult (example_result ''hidden'' None)))
    \<and> events (handler (example_agent ?hid unresolved_owner ?usr) 3 example_request [] False 0)
      = [Progress ''Processing request...'', Handle HiddenOwner ?rq []]"
    by blast
  from h2 t [of "example_agent unresolved_owner ?ben ?usr" example_request "[]" False 0
      "example_result ''benchmark'' None" 1 3 2]
  have w2: "returned (handler (example_agent unresolved_owner ?ben ?usr) 3 example_request [] False 0)
      = Inr (Some (chatAgentResult (example_result ''benchmark'' None)))
    \<and> events (handler (example_agent unresolved_owner ?ben ?usr) 3 example_request [] False 0)
      = [Progress ''Processing request...'', Handle HiddenOwner ?rq [], Handle BenchmarkerOwner ?rq []]"
    by blast
  from h3 t [of "example_agent unresolved_owner unresolved_owner ?usr" example_request "[]" False 0
      "example_result ''user'' None" 1 3 2 3]
  have w3: "returned (handler (example_agent unresolved_owner unresolved_owner ?usr) 3 example_request [] False 0)
      = Inr (Some (chatAgentResult (example_result ''user'' None)))
    \<and> events (handler (example_agent unresolved_owner unresolved_owner ?usr) 3 example_request [] False 0)
      = [Progress ''Processing request...'', Handle HiddenOwner ?rq [], Handle BenchmarkerOwner ?rq [],
         Handle UserVisibleOwner ?rq []]"
    by blast
  from w1 w2 w3 show ?thesis by blast
qed



text \<open>
  Claim C3. When each of the three owners returns \<^verbatim>\<open>undefined\<close> for the request,
  the handler returns \<^verbatim>\<open>undefined\<close>; it does not throw.
\<close>

theorem handler_unresolved_returns_undefined:
  assumes "handleRequestOrPrompt (agentHiddenSlashCommandsOwner ag)
             (agentRequest_of request ctx tok) [] s = (Inr None, s1)"
      and "handleRequestOrPrompt (agentBenchmarker ag)
             (agentRequest_of request ctx tok) [] s1 = (Inr None, s2)"
      and "handleRequestOrPrompt (agentSlashCommandsOwner ag)
             (agentRequest_of request ctx tok) [] s2 = (Inr None, s3)"
  shows "returned (handler ag maxFollowUps request ctx tok s) = Inr None"
  using assms
  unfolding handler_def Let_def handlers_loop_three truncate_methods
  by simp

theorem handler_unresolved_returns_undefined_witness:
  "returned (handler (example_agent unresolved_owner unresolved_owner unresolved_owner)
      3 example_request [] False 0) = Inr None"
proof -
  let ?ag = "example_agent unresolved_owner unresolved_owner unresolved_owner"
  let ?rq = "agentRequest_of example_request [] False"
  have h: "handleRequestOrPrompt (agentHiddenSlashCommandsOwner ?ag) ?rq [] 0 = (Inr None, 1)"
    by (simp add: example_agent_def with_registry_def unresolved_owner_def)
  have b: "handleRequestOrPrompt (agentBenchmarker ?ag) ?rq [] 1 = (Inr None, 2)"
    by (simp add: example_agent_def with_registry_def unresolved_owner_def)
  have u: "handleRequestOrPrompt (agentSlashCommandsOwner ?ag) ?rq [] 2 = (Inr None, 3)"
    by (simp add: example_agent_def with_registry_def unresolved_owner_def)
  show ?thesis by (rule handler_unresolved_returns_undefined [OF h b u])
qed

text \<open>
  Claim C4. In every run the progress message is written first: the events of the run
  are the progress message followed by invocations of owners only, so every invocation
  of \<^verbatim>\<open>handleRequestOrPrompt\<close> comes after the write.
\<close>

theorem handler_progress_before_owners:
  "\<exists>evs. events (handler ag maxFollowUps request ctx tok s) =
            Progress ''Processing request...'' # evs
     \<and> evs \<noteq> []
     \<and> (\<forall>e \<in> set evs. \<exists>i. e = Handle i (agentRequest_of request ctx tok) [])"
  unfolding handler_def Let_def handlers_loop_three truncate_methods
  by (simp split: prod.splits sum.splits option.splits)

theorem handler_progress_before_owners_witness:
  "\<exists>evs. events (handler (example_agent unresolved_owner throwing_owner unresolved_owner)
              3 example_request [] False 0) = Progress ''Processing request...'' # evs
     \<and> evs = [Handle HiddenOwner (agentRequest_of example_request [] False) [],
              Handle BenchmarkerOwner (agentRequest_of example_request [] False) []]"
proof -
  let ?ag = "example_agent unresolved_owner throwing_owner unresolved_owner"
  have run: "events (handler ?ag 3 example_request [] False 0) =
      [Progress ''Processing request...'',
       Handle HiddenOwner (agentRequest_of example_request [] False) [],
       Handle BenchmarkerOwner (agentRequest_of example_request [] False) []]"
    by (simp add: handler_def Let_def truncate_methods example_agent_def with_registry_def
        unresolved_owner_def throwing_owner_def)
  from handler_progress_before_owners [of ?ag 3 example_request "[]" False 0] run
  show ?thesis by simp
qed

text \<open>
  Claim C10. The follow-up provider never returns \<^verbatim>\<open>undefined\<close>. It asks the
  hidden owner, the benchmarker and the user-visible owner in this order and returns the
  first list it receives, also an empty one, without asking the owners after; when
  every owner returns \<^verbatim>\<open>undefined\<close> it returns the empty list.
\<close>

theorem followUpProvider_first_defined:
  fixes ag :: "('s, 'c) agent" and result tok s
  defines "H \<equiv> getFollowUpForLastHandledSlashCommand (agentHiddenSlashCommandsOwner ag)"
      and "B \<equiv> getFollowUpForLastHandledSlashCommand (agentBenchmarker ag)"
      and "U \<equiv> getFollowUpForLastHandledSlashCommand (agentSlashCommandsOwner ag)"
      and "R \<equiv> followUpProvider ag result tok s"
  shows
    "provided R \<noteq> Inr None
     \<and> (H result tok s = (Inr (Some fs), s1) \<longrightarrow>
        provided R = Inr (Some fs) \<and> queries R = [FollowUpQuery HiddenOwner result])
     \<and> (H result tok s = (Inr None, s1) \<and> B result tok s1 = (Inr (Some fs), s2) \<longrightarrow>
        provided R = Inr (Some fs) \<and>
        queries R = [FollowUpQuery HiddenOwner result, FollowUpQuery BenchmarkerOwner result])
     \<and> (H result tok s = (Inr None, s1) \<and> B result tok s1 = (Inr None, s2) \<and>
        U result tok s2 = (Inr (Some fs), s3) \<longrightarrow>
        provided R = Inr (Some fs) \<and>
        queries R = [FollowUpQuery HiddenOwner result, FollowUpQuery BenchmarkerOwner result,
                     FollowUpQuery UserVisibleOwner result])
     \<and> (H result tok s = (Inr None, s1) \<and> B result tok s1 = (Inr None, s2) \<and>
        U result tok s2 = (Inr None, s3) \<longrightarrow>
        provided R = Inr (Some []) \<and>
        queries R = [FollowUpQuery HiddenOwner result, FollowUpQuery BenchmarkerOwner result,
                     FollowUpQuery UserVisibleOwner result])"
proof -
  note loop = providers_loop_three [of HiddenOwner
      "agent_request_handler.truncate (agentHiddenSlashCommandsOwner ag)"
      BenchmarkerOwner "agentBenchmarker ag" UserVisibleOwner
      "agent_request_handler.truncate (agentSlashCommandsOwner ag)" result tok s,
      unfolded truncate_methods]
  have c0: "provided R \<noteq> Inr None"
    unfolding R_def followUpProvider_def Let_def
    by (simp split: prod.splits sum.splits)
  have c1: "H result tok s = (Inr (Some fs), s1) \<longrightarrow>
        provided R = Inr (Some fs) \<and> queries R = [FollowUpQuery HiddenOwner result]"
    unfolding R_def followUpProvider_def Let_def truncate_methods H_def loop
    by (simp add: or_empty_def)
  have c2: "H result tok s = (Inr None, s1) \<and> B result tok s1 = (Inr (Some fs), s2) \<longrightarrow>
        provided R = Inr (Some fs) \<and>
        queries R = [FollowUpQuery HiddenOwner result, FollowUpQuery BenchmarkerOwner result]"
    unfolding R_def followUpProvider_def Let_def truncate_methods H_def B_def loop
    by (simp add: or_empty_def)
  have c3: "H result tok s = (Inr None, s1) \<and> B result tok s1 = (Inr None, s2) \<and>
        U result tok s2 = (Inr (Some fs), s3) \<longrightarrow>
        provided R = Inr (Some fs) \<and>
        queries R = [FollowUpQuery HiddenOwner result, FollowUpQuery BenchmarkerOwner result,
                     FollowUpQuery UserVisibleOwner result]"
    unfolding R_def followUpProvider_def Let_def truncate_methods H_def B_def U_def loop
    by (simp add: or_empty_def)
  have c4: "H result tok s = (Inr None, s1) \<and> B result tok s1 = (Inr None, s2) \<and>
        U result tok s2 = (Inr None, s3) \<longrightarrow>
        provided R = Inr (Some []) \<and>
        queries R = [FollowUpQuery HiddenOwner result, FollowUpQuery BenchmarkerOwner result,
                     FollowUpQuery UserVisibleOwner result]"
    unfolding R_def followUpProvider_def Let_def truncate_methods H_def B_def U_def loop
    by (simp add: or_empty_def)
  from c0 c1 c2 c3 c4 show ?thesis by blast
qed

theorem followUpProvider_first_defined_witness:
  "provided (followUpProvider (example_agent (resolving_owner (example_result ''hidden'' (Some [])))
       unresolved_owner (resolving_owner (example_result ''user'' (Some example_followUps))))
       (chatAgentResult (example_result ''hidden'' (Some []))) False 0) = Inr (Some [])
   \<and> queries (followUpProvider (example_agent (resolving_owner (example_result ''hidden'' (Some [])))
       unresolved_owner (resolving_owner (example_result ''user'' (Some example_followUps))))
       (chatAgentResult (example_result ''hidden'' (Some []))) False 0)
     = [FollowUpQuery HiddenOwner (chatAgentResult (example_result ''hidden'' (Some [])))]
   \<and> provided (followUpProvider (example_agent unresolved_owner
       (resolving_owner (example_result ''benchmark'' (Some example_followUps))) unresolved_owner)
       (chatAgentResult (example_result ''benchmark'' None)) False 0) = Inr (Some example_followUps)
   \<and> provided (followUpProvider (example_agent unresolved_owner unresolved_owner
       (resolving_owner (example_result ''user'' (Some example_followUps))))
       (chatAgentResult (example_result ''user'' None)) False 0) = Inr (Some example_followUps)
   \<and> provided (followUpProvider (example_agent unresolved_owner unresolved_owner unresolved_owner)
       (chatAgentResult (example_result ''user'' None)) False 0) = Inr (Some [])"
proof -
  note t = followUpProvider_first_defined
  note defs = example_agent_def with_registry_def resolving_owner_def unresolved_owner_def example_result_def
  let ?a1 = "example_agent (resolving_owner (example_result ''hidden'' (Some [])))
       unresolved_owner (resolving_owner (example_result ''user'' (Some example_followUps)))"
  let ?r1 = "chatAgentResult (example_result ''hidden'' (Some []))"
  have h1: "getFollowUpForLastHandledSlashCommand (agentHiddenSlashCommandsOwner ?a1) ?r1 False 0
      = (Inr (Some []), 1)"
    by (simp add: defs)
  from h1 t [of ?a1 ?r1 False 0 "[]" 1]
  have w1: "provided (followUpProvider ?a1 ?r1 False 0) = Inr (Some [])
     \<and> queries (followUpProvider ?a1 ?r1 False 0) = [FollowUpQuery HiddenOwner ?r1]"
    by blast
  let ?a2 = "example_agent unresolved_owner
       (resolving_owner (example_result ''benchmark'' (Some example_followUps))) unresolved_owner"
  let ?r2 = "chatAgentResult (example_result ''benchmark'' None)"
  have h2: "getFollowUpForLastHandledSlashCommand (agentHiddenSlashCommandsOwner ?a2) ?r2 False 0
      = (Inr None, 1)
    \<and> getFollowUpForLastHandledSlashCommand (agentBenchmarker ?a2) ?r2 False 1
      = (Inr (Some example_followUps), 2)"
    by (simp add: defs)
  from h2 t [of ?a2 ?r2 False 0 example_followUps 1 2]
  have w2: "provided (followUpProvider ?a2 ?r2 False 0) = Inr (Some example_followUps)"
    by blast
  let ?a3 = "example_agent unresolved_owner unresolved_owner
       (resolving_owner (example_result ''user'' (Some example_followUps)))"
  let ?r3 = "chatAgentResult (example_result ''user'' None)"
  have h3: "getFollowUpForLastHandledSlashCommand (agentHiddenSlashCommandsOwner ?a3) ?r3 False 0
      = (Inr None, 1)
    \<and> getFollowUpForLastHandledSlashCommand (agentBenchmarker ?a3) ?r3 False 1 = (Inr None, 2)
    \<and> getFollowUpForLastHandledSlashCommand (agentSlashCommandsOwner ?a3) ?r3 False 2
      = (Inr (Some example_followUps), 3)"
    by (simp add: defs)
  from h3 t [of ?a3 ?r3 False 0 example_followUps 1 2 3]
  have w3: "provided (followUpProvider ?a3 ?r3 False 0) = Inr (Some example_followUps)"
    by blast
  let ?a4 = "example_agent unresolved_owner unresolved_owner unresolved_owner"
  have h4: "getFollowUpForLastHandledSlashCommand (agentHiddenSlashCommandsOwner ?a4) ?r3 False 0
      = (Inr None, 1)
    \<and> getFollowUpForLastHandledSlashCommand (agentBenchmarker ?a4) ?r3 False 1 = (Inr None, 2)
    \<and> getFollowUpForLastHandledSlashCommand (agentSlashCommandsOwner ?a4) ?r3 False 2
      = (Inr None, 3)"
    by (simp add: defs)
  from h4 t [of ?a4 ?r3 False 0 _ 1 2 3]
  have w4: "provided (followUpProvider ?a4 ?r3 False 0) = Inr (Some [])"
    by blast
  from w1 w2 w3 w4 show ?thesis by blast
qed

section \<open>The command listing\<close>

lemma register_all_appends: "register_all key es reg = Inr reg' \<Longrightarrow> reg' = reg @ es"
proof (induction es arbitrary: reg)
  case Nil
  then show ?case by simp
next
  case (Cons e es)
  from Cons.prems have "register_all key es (reg @ [e]) = Inr reg'"
    by (simp add: register_def split: option.splits)
  then have "reg' = (reg @ [e]) @ es" by (rule Cons.IH)
  then show ?case by simp
qed

lemma get_None_iff: "get key reg n = None \<longleftrightarrow> n \<notin> key ` set reg"
  by (auto simp: get_def find_None_iff)

lemma register_all_distinct:
  "distinct (map key es) \<Longrightarrow> key ` set es \<inter> key ` set reg = {} \<Longrightarrow>
     register_all key es reg = Inr (reg @ es)"
proof (induction es arbitrary: reg)
  case Nil
  then show ?case by simp
next
  case (Cons e es)
  from Cons.prems have fresh: "get key reg (key e) = None"
    by (auto simp: get_None_iff)
  from Cons.prems have "distinct (map key es)" "key ` set es \<inter> key ` set (reg @ [e]) = {}"
    by auto
  then have "register_all key es (reg @ [e]) = Inr ((reg @ [e]) @ es)" by (rule Cons.IH)
  with fresh show ?case by (simp add: register_def)
qed

lemma map_set_keys:
  "map fst (map_set m k v) = (if k \<in> fst ` set m then map fst m else map fst m @ [k])"
proof (induction m)
  case Nil
  show ?case by simp
next
  case (Cons a m)
  obtain k' v' where a: "a = (k', v')" by (cases a)
  show ?case
  proof (cases "k' = k")
    case True
    then show ?thesis unfolding a by simp
  next
    case False
    then have "k \<in> fst ` set ((k', v') # m) \<longleftrightarrow> k \<in> fst ` set m" by auto
    with False Cons.IH show ?thesis unfolding a by simp
  qed
qed

lemma map_set_new: "k \<notin> fst ` set m \<Longrightarrow> map_set m k v = m @ [(k, v)]"
  by (induction m) auto

lemma foldl_map_set_distinct:
  "distinct (map fst m) \<Longrightarrow>
     distinct (map fst (foldl (\<lambda>m (k, v). map_set m k v) m es))"
proof (induction es arbitrary: m)
  case Nil
  then show ?case by simp
next
  case (Cons e es)
  obtain k v where e: "e = (k, v)" by (cases e)
  from Cons.prems have "distinct (map fst (map_set m k v))"
    by (auto simp: map_set_keys)
  then show ?case unfolding e by (simp add: Cons.IH)
qed

lemma new_Map_distinct: "distinct (map fst (new_Map es))"
  unfolding new_Map_def by (rule foldl_map_set_distinct) simp

lemma foldl_map_set_fresh:
  "distinct (map fst (m @ es)) \<Longrightarrow> foldl (\<lambda>m (k, v). map_set m k v) m es = m @ es"
proof (induction es arbitrary: m)
  case Nil
  then show ?case by simp
next
  case (Cons e es)
  obtain k v where e: "e = (k, v)" by (cases e)
  from Cons.prems e have fresh: "k \<notin> fst ` set m" by auto
  from Cons.prems e have "distinct (map fst ((m @ [(k, v)]) @ es))" by simp
  then have "foldl (\<lambda>m (k, v). map_set m k v) (m @ [(k, v)]) es = (m @ [(k, v)]) @ es"
    by (rule Cons.IH)
  with fresh show ?case unfolding e by (simp add: map_set_new)
qed

lemma new_Map_of_distinct: "distinct (map fst es) \<Longrightarrow> new_Map es = es"
  unfolding new_Map_def using foldl_map_set_fresh [of "[]" es] by simp

lemma addInvokeableSlashCommands_new_Map:
  assumes "getSlashCommands u = []"
  shows "addInvokeableSlashCommands (new_Map es) u = Inr (u\<lparr>getSlashCommands := new_Map es\<rparr>)"
proof -
  have "register_all fst (new_Map es) [] = Inr ([] @ new_Map es)"
    by (rule register_all_distinct) (simp_all add: new_Map_distinct)
  with assms show ?thesis by (simp add: addInvokeableSlashCommands_def)
qed

text \<open>
  Claim C6, as stated, fails: the second component of a listed pair is not the
  \<^verbatim>\<open>displayName\<close> of the command. For a registry entry whose configuration has both
  fields, the listing shows \<^verbatim>\<open>shortDescription\<close>.
\<close>

theorem getCommands_displayName_counterexample:
  "map description (getCommands described_agent False)
     \<noteq> map (\<lambda>e. displayName (slash_command_config.more (snd e)))
         (getSlashCommands (agentSlashCommandsOwner described_agent))"
  by (simp add: getCommands_def described_agent_def with_registry_def
      described_slash_commands_def)

text \<open>
  Claim C6, amended. The listing has one command per entry of the user-visible owner's
  registry, in the order of the entries, each with the name of the entry and the
  \<^verbatim>\<open>shortDescription\<close> of its configuration; it reads neither the registry of the
  hidden owner nor the benchmarker. For an owner given its commands as
  \<^verbatim>\<open>new Map(entries)\<close>, as in \<^verbatim>\<open>agent.ts\<close>, the registration succeeds and the order
  is the order of the map: the order of first occurrence of each name, which for
  pairwise distinct names is the order of the entries.
\<close>

theorem getCommands_lists_user_visible:
  "map chat_command.name (getCommands ag tok)
     = map fst (getSlashCommands (agentSlashCommandsOwner ag))
   \<and> map description (getCommands ag tok)
     = map (\<lambda>e. shortDescription (snd e)) (getSlashCommands (agentSlashCommandsOwner ag))
   \<and> getCommands (ag\<lparr>agentHiddenSlashCommandsOwner := h, agentBenchmarker := b\<rparr>) tok
        = getCommands ag tok
   \<and> (getSlashCommands u = [] \<longrightarrow>
        (\<exists>u'. addInvokeableSlashCommands (new_Map es) u = Inr u' \<and>
           map chat_command.name (getCommands (ag\<lparr>agentSlashCommandsOwner := u'\<rparr>) tok)
             = map fst (new_Map es) \<and>
           map description (getCommands (ag\<lparr>agentSlashCommandsOwner := u'\<rparr>) tok)
             = map (\<lambda>e. shortDescription (snd e)) (new_Map es)))
   \<and> (distinct (map fst es) \<longrightarrow> new_Map es = es)"
proof -
  have a: "map chat_command.name (getCommands ag tok)
     = map fst (getSlashCommands (agentSlashCommandsOwner ag))"
    by (simp add: getCommands_def case_prod_unfold)
  have b: "map description (getCommands ag tok)
      = map (\<lambda>e. shortDescription (snd e)) (getSlashCommands (agentSlashCommandsOwner ag))"
    by (simp add: getCommands_def case_prod_unfold)
  have c: "getCommands (ag\<lparr>agentHiddenSlashCommandsOwner := h, agentBenchmarker := b\<rparr>) tok
      = getCommands ag tok"
    by (simp add: getCommands_def)
  have d: "getSlashCommands u = [] \<longrightarrow>
        (\<exists>u'. addInvokeableSlashCommands (new_Map es) u = Inr u' \<and>
           map chat_command.name (getCommands (ag\<lparr>agentSlashCommandsOwner := u'\<rparr>) tok)
             = map fst (new_Map es) \<and>
           map description (getCommands (ag\<lparr>agentSlashCommandsOwner := u'\<rparr>) tok)
             = map (\<lambda>e. shortDescription (snd e)) (new_Map es))"
  proof
    assume "getSlashCommands u = []"
    then have "addInvokeableSlashCommands (new_Map es) u = Inr (u\<lparr>getSlashCommands := new_Map es\<rparr>)"
      by (rule addInvokeableSlashCommands_new_Map)
    moreover have "map chat_command.name
        (getCommands (ag\<lparr>agentSlashCommandsOwner := u\<lparr>getSlashCommands := new_Map es\<rparr>\<rparr>) tok)
        = map fst (new_Map es)"
      by (simp add: getCommands_def case_prod_unfold)
    moreover have "map description
        (getCommands (ag\<lparr>agentSlashCommandsOwner := u\<lparr>getSlashCommands := new_Map es\<rparr>\<rparr>) tok)
        = map (\<lambda>e. shortDescription (snd e)) (new_Map es)"
      by (simp add: getCommands_def case_prod_unfold)
    ultimately show "\<exists>u'. addInvokeableSlashCommands (new_Map es) u = Inr u' \<and>
           map chat_command.name (getCommands (ag\<lparr>agentSlashCommandsOwner := u'\<rparr>) tok)
             = map fst (new_Map es) \<and>
           map description (getCommands (ag\<lparr>agentSlashCommandsOwner := u'\<rparr>) tok)
             = map (\<lambda>e. shortDescription (snd e)) (new_Map es)"
      by blast
  qed
  have e: "distinct (map fst es) \<longrightarrow> new_Map es = es"
    using new_Map_of_distinct [of es] by blast
  from a b c d e show ?thesis by blast
qed

theorem getCommands_lists_user_visible_witness:
  "getCommands (example_agent (resolving_owner (example_result ''hidden'' None))
       unresolved_owner unresolved_owner) False
     = [\<lparr>chat_command.name = ''functions'', description = ''Work with Azure Functions''\<rparr>,
        \<lparr>chat_command.name = ''storage'', description = ''Work with Azure Storage''\<rparr>,
        \<lparr>chat_command.name = ''help'', description = ''Get help''\<rparr>]
   \<and> new_Map example_slash_commands = example_slash_commands
   \<and> (\<exists>u'. addInvokeableSlashCommands
          (new_Map (example_slash_commands @ [(''storage'', \<lparr>shortDescription = ''Blobs''\<rparr>)]))
          (with_registry unresolved_owner []) = Inr u' \<and>
        map chat_command.name (getCommands
          (example_agent unresolved_owner unresolved_owner unresolved_owner
             \<lparr>agentSlashCommandsOwner := u'\<rparr>) False) = [''functions'', ''storage'', ''help''] \<and>
        map description (getCommands
          (example_agent unresolved_owner unresolved_owner unresolved_owner
             \<lparr>agentSlashCommandsOwner := u'\<rparr>) False)
          = [''Work with Azure Functions'', ''Blobs'', ''Get help''])"
proof -
  let ?ag = "example_agent (resolving_owner (example_result ''hidden'' None))
       unresolved_owner unresolved_owner"
  let ?ag2 = "example_agent unresolved_owner unresolved_owner unresolved_owner"
  let ?es = "example_slash_commands @ [(''storage'', \<lparr>shortDescription = ''Blobs''\<rparr>)]"
  note t = getCommands_lists_user_visible
  have names: "map chat_command.name (getCommands ?ag False) = [''functions'', ''storage'', ''help'']"
    using t [of ?ag False] by (simp add: example_agent_def with_registry_def example_slash_commands_def)
  have descs: "map description (getCommands ?ag False)
      = [''Work with Azure Functions'', ''Work with Azure Storage'', ''Get help'']"
    using t [of ?ag False] by (simp add: example_agent_def with_registry_def example_slash_commands_def)
  have run: "getCommands ?ag False
     = [\<lparr>chat_command.name = ''functions'', description = ''Work with Azure Functions''\<rparr>,
        \<lparr>chat_command.name = ''storage'', description = ''Work with Azure Storage''\<rparr>,
        \<lparr>chat_command.name = ''help'', description = ''Get help''\<rparr>]"
    by (simp add: getCommands_def example_agent_def with_registry_def example_slash_commands_def)
  have dist: "distinct (map fst example_slash_commands)"
    by (simp add: example_slash_commands_def)
  from t [where es = example_slash_commands] dist
  have same: "new_Map example_slash_commands = example_slash_commands" by blast
  have empty: "getSlashCommands (with_registry unresolved_owner []
      :: (nat, unit) slash_commands_owner) = []"
    by (simp add: with_registry_def)
  have merged: "new_Map ?es
      = [(''functions'', \<lparr>shortDescription = ''Work with Azure Functions''\<rparr>),
         (''storage'', \<lparr>shortDescription = ''Blobs''\<rparr>),
         (''help'', \<lparr>shortDescription = ''Get help''\<rparr>)]"
    by (simp add: new_Map_def example_slash_commands_def)
  from t [where u = "with_registry unresolved_owner [] :: (nat, unit) slash_commands_owner"
      and es = ?es and ag = ?ag2 and tok = False] empty
  have "\<exists>u'. addInvokeableSlashCommands (new_Map ?es) (with_registry unresolved_owner []) = Inr u' \<and>
        map chat_command.name (getCommands (?ag2\<lparr>agentSlashCommandsOwner := u'\<rparr>) False)
          = map fst (new_Map ?es) \<and>
        map description (getCommands (?ag2\<lparr>agentSlashCommandsOwner := u'\<rparr>) False)
          = map (\<lambda>e. shortDescription (snd e)) (new_Map ?es)"
    by blast
  then have third: "\<exists>u'. addInvokeableSlashCommands (new_Map ?es) (with_registry unresolved_owner [])
          = Inr u' \<and>
        map chat_command.name (getCommands (?ag2\<lparr>agentSlashCommandsOwner := u'\<rparr>) False)
          = [''functions'', ''storage'', ''help''] \<and>
        map description (getCommands (?ag2\<lparr>agentSlashCommandsOwner := u'\<rparr>) False)
          = [''Work with Azure Functions'', ''Blobs'', ''Get help'']"
    unfolding merged by simp
  from run same third show ?thesis by blast
qed

section \<open>Properties of resolution and execution\<close>

lemma record_result_fst:
  "fst (record_result env chain r st) =
     Some (r\<lparr>chatAgentResult := (chatAgentResult r)
              \<lparr>metadata := (metadata (chatAgentResult r))
                 \<lparr>handlerChain := Some chain, resultId := Some (digits (nextResultId st))\<rparr>\<rparr>\<rparr>)"
  by (simp add: record_result_def Let_def)


lemma get_command_name: "get_command ow n = Some c \<Longrightarrow> name (descriptor c) = n"
  by (auto simp: get_command_def get_def find_Some_iff)







lemma undigits_snoc: "undigits (s @ [c]) = 10 * undigits s + (of_char c - 48)"
  by (simp add: undigits_def)

lemma of_char_digit: "d < 10 \<Longrightarrow> (of_char (char_of (48 + d)) :: nat) - 48 = d"
  by simp

lemma undigits_digits: "undigits (digits n) = n"
proof (induction n rule: digits.induct)
  case (1 n)
  show ?case
  proof (cases "n < 10")
    case True
    then have "digits n = [char_of (48 + n)]" by (simp add: digits.simps [of n])
    with True show ?thesis using undigits_snoc [of "[]" "char_of (48 + n)"]
      by (simp add: undigits_def)
  next
    case False
    then have d: "digits n = digits (n div 10) @ [char_of (48 + n mod 10)]"
      by (simp add: digits.simps [of n])
    from False "1.IH" have "undigits (digits (n div 10)) = n div 10" by simp
    then have "undigits (digits n) = 10 * (n div 10) + n mod 10"
      unfolding d undigits_snoc using of_char_digit [of "n mod 10"] by simp
    then show ?thesis by simp
  qed
qed

lemma digits_inj: "digits m = digits n \<Longrightarrow> m = n"
  by (metis undigits_digits)

lemma record_result_snd:
  "snd (record_result env chain r st) =
     st\<lparr>nextResultId := Suc (nextResultId st),
        recentResults := take (cacheCapacity env)
          ((digits (nextResultId st), followUp r) # recentResults st)\<rparr>"
  by (simp add: record_result_def Let_def)

lemma record_result_id:
  assumes "record_result env chain r st = (out, st')"
  shows "nextResultId st' = Suc (nextResultId st)
     \<and> (\<exists>r'. out = Some r' \<and> resultId (metadata (chatAgentResult r')) = Some (digits (nextResultId st))
           \<and> followUp r' = followUp r)
     \<and> recentResults st' = take (cacheCapacity env)
          ((digits (nextResultId st), followUp r) # recentResults st)"
proof -
  from assms have "fst (record_result env chain r st) = out" "snd (record_result env chain r st) = st'"
    by simp_all
  then show ?thesis unfolding record_result_fst record_result_snd by auto
qed

lemma dispatch_counter:
  "dispatch env ow rq chain st = (out, st') \<Longrightarrow>
     nextResultId st \<le> nextResultId st' \<and> id_in_range out (nextResultId st) (nextResultId st')"
proof (induction env ow rq chain st arbitrary: out st' rule: dispatch.induct)
  case (1 env ow rq chain st)
  note d = dispatch.simps [of env ow rq chain st]
  show ?case
  proof (cases "resolve env ow rq")
    case None
    with "1.prems" show ?thesis by (auto simp: d id_in_range_def)
  next
    case (Some sel)
    obtain rl c where sel: "sel = (rl, c)" by (cases sel)
    note res = Some [unfolded sel]
    show ?thesis
    proof (cases "gating env (descriptor c)")
      case (Some msg)
      with "1.prems" res
      have "record_result env (chain @ [name (descriptor c)]) (gating_result msg) st = (out, st')"
        by (simp add: d)
      from record_result_id [OF this] show ?thesis by (auto simp: id_in_range_def)
    next
      case None
      note ungated = this
      show ?thesis
      proof (cases c)
        case (Leaf dsc h)
        obtain res0 w' where run: "h rq (chain @ [name dsc]) (world st) = (res0, w')"
          by (cases "h rq (chain @ [name dsc]) (world st)")
        show ?thesis
        proof (cases res0)
          case (Inl e)
          with "1.prems" res ungated Leaf run show ?thesis by (auto simp: d id_in_range_def)
        next
          case (Inr v)
          show ?thesis
          proof (cases v)
            case None
            with "1.prems" res ungated Leaf run Inr show ?thesis by (auto simp: d id_in_range_def)
          next
            case (Some r0)
            with "1.prems" res ungated Leaf run Inr
            have "record_result env (chain @ [name dsc]) r0 (st\<lparr>world := w'\<rparr>) = (out, st')"
              by (simp add: d)
            from record_result_id [OF this] show ?thesis by (auto simp: id_in_range_def)
          qed
        qed
      next
        case (Mounted dsc sub)
        obtain out0 st0 where inner: "dispatch env sub rq (chain @ [name dsc]) st = (out0, st0)"
          by (cases "dispatch env sub rq (chain @ [name dsc]) st")
        from "1.IH" [OF \<open>resolve env ow rq = Some sel\<close> sel [symmetric] ungated Mounted inner]
        have mono: "nextResultId st \<le> nextResultId st0" by simp
        show ?thesis
        proof (cases out0)
          case None
          with "1.prems" res ungated Mounted inner mono show ?thesis
            by (auto simp: d id_in_range_def)
        next
          case (Some r0)
          with "1.prems" res ungated Mounted inner
          have "record_result env
                    ((chain @ [name dsc]) @ chain_fragment (chain @ [name dsc]) r0) r0 st0
                  = (out, st')"
            by (simp add: d)
          from record_result_id [OF this] mono show ?thesis by (auto simp: id_in_range_def)
        qed
      qed
    qed
  qed
qed

lemma dispatches_ids:
  "dispatches env ds st = (rs, st') \<Longrightarrow>
     nextResultId st \<le> nextResultId st' \<and> distinct (result_ids rs)
     \<and> ids_in_range (result_ids rs) (nextResultId st) (nextResultId st')"
proof (induction ds arbitrary: st rs st')
  case Nil
  then show ?case by (simp add: result_ids_def ids_in_range_def)
next
  case (Cons a ds)
  obtain ow rq where a: "a = (ow, rq)" by (cases a)
  obtain out st1 where first: "dispatch env ow rq [] st = (out, st1)"
    by (cases "dispatch env ow rq [] st")
  obtain rs1 st2 where rest: "dispatches env ds st1 = (rs1, st2)"
    by (cases "dispatches env ds st1")
  from Cons.prems a first rest have rs: "rs = out # rs1" and st': "st' = st2" by simp_all
  from dispatch_counter [OF first]
  have m1: "nextResultId st \<le> nextResultId st1"
    and r1: "id_in_range out (nextResultId st) (nextResultId st1)" by simp_all
  from Cons.IH [OF rest]
  have m2: "nextResultId st1 \<le> nextResultId st2" and dist: "distinct (result_ids rs1)"
    and r2: "ids_in_range (result_ids rs1) (nextResultId st1) (nextResultId st2)" by simp_all
  have split: "result_ids (out # rs1) = result_ids [out] @ result_ids rs1"
    by (simp add: result_ids_def)
  have head: "ids_in_range (result_ids [out]) (nextResultId st) (nextResultId st1)"
    using r1 by (auto simp: ids_in_range_def id_in_range_def result_ids_def split: option.splits)
  have hd_dist: "distinct (result_ids [out])"
    by (simp add: result_ids_def split: option.splits)
  have disj: "set (result_ids [out]) \<inter> set (result_ids rs1) = {}"
  proof (rule ccontr)
    assume "set (result_ids [out]) \<inter> set (result_ids rs1) \<noteq> {}"
    then obtain i where "i \<in> set (result_ids [out])" "i \<in> set (result_ids rs1)" by blast
    with head r2 obtain k k' where "i = digits k" "k < nextResultId st1"
      "i = digits k'" "nextResultId st1 \<le> k'"
      unfolding ids_in_range_def by blast
    then show False using digits_inj [of k k'] by simp
  qed
  have range: "ids_in_range (result_ids (out # rs1)) (nextResultId st) (nextResultId st2)"
    unfolding split using head r2 m1 m2
    by (fastforce simp: ids_in_range_def)
  from m1 m2 dist hd_dist disj range show ?case
    unfolding rs st' split by simp
qed

lemma dispatch_recorded:
  assumes "dispatch env ow rq chain st = (Some r, st')"
  shows "\<exists>chain0 r0 st0. record_result env chain0 r0 st0 = (Some r, st')"
proof -
  note d = dispatch.simps [of env ow rq chain st]
  from assms obtain rl c where res: "resolve env ow rq = Some (rl, c)"
    by (cases "resolve env ow rq") (auto simp: d)
  show ?thesis
  proof (cases "gating env (descriptor c)")
    case (Some msg)
    with assms res
    have "record_result env (chain @ [name (descriptor c)]) (gating_result msg) st = (Some r, st')"
      by (simp add: d)
    then show ?thesis by blast
  next
    case None
    show ?thesis
    proof (cases c)
      case (Leaf dsc h)
      obtain res0 w' where run: "h rq (chain @ [name dsc]) (world st) = (res0, w')"
        by (cases "h rq (chain @ [name dsc]) (world st)")
      from assms res None Leaf run
      obtain r0 where "record_result env (chain @ [name dsc]) r0 (st\<lparr>world := w'\<rparr>) = (Some r, st')"
        by (auto simp: d split: sum.splits option.splits)
      then show ?thesis by blast
    next
      case (Mounted dsc sub)
      obtain out0 st0 where inner: "dispatch env sub rq (chain @ [name dsc]) st = (out0, st0)"
        by (cases "dispatch env sub rq (chain @ [name dsc]) st")
      from assms res None Mounted inner
      obtain r0 where "record_result env
                    ((chain @ [name dsc]) @ chain_fragment (chain @ [name dsc]) r0) r0 st0
                  = (Some r, st')"
        by (auto simp: d split: option.splits)
      then show ?thesis by blast
    qed
  qed
qed

lemma dispatch_caches:
  assumes "dispatch env ow rq chain st = (Some r, st')" and "0 < cacheCapacity env"
  shows "cached_followUp (chatAgentResult r) st' = followUp r"
proof -
  from dispatch_recorded [OF assms(1)]
  obtain chain0 r0 st0 where rec: "record_result env chain0 r0 st0 = (Some r, st')" by blast
  from record_result_id [OF rec]
  have rid: "resultId (metadata (chatAgentResult r)) = Some (digits (nextResultId st0))"
    and fu: "followUp r = followUp r0"
    and cache: "recentResults st' = take (cacheCapacity env)
          ((digits (nextResultId st0), followUp r0) # recentResults st0)"
    by auto
  from assms(2) obtain n where "cacheCapacity env = Suc n"
    by (cases "cacheCapacity env") auto
  with cache have "recentResults st'
      = (digits (nextResultId st0), followUp r0) # take n (recentResults st0)"
    by simp
  with rid fu show ?thesis by (simp add: cached_followUp_def split: option.splits)
qed

lemma dispatch_has_id:
  assumes "dispatch env ow rq chain st = (Some r, st')"
  shows "\<exists>k. resultId (metadata (chatAgentResult r)) = Some (digits k)
           \<and> nextResultId st \<le> k \<and> k < nextResultId st'"
  using dispatch_counter [OF assms] by (simp add: id_in_range_def)

lemma slashCommandsOwner_handle:
  "handleRequestOrPrompt (slashCommandsOwner env ow) rq chain st =
     (Inr (fst (dispatch env ow rq chain st)), snd (dispatch env ow rq chain st))"
  by (simp add: slashCommandsOwner_def split: prod.splits)

lemma slashCommandsOwner_followUp:
  "getFollowUpForLastHandledSlashCommand (slashCommandsOwner env ow) result tok st =
     (Inr (cached_followUp result st), st)"
  by (simp add: slashCommandsOwner_def)

lemma dispatches_have_ids:
  "dispatches env ds st = (rs, st') \<Longrightarrow>
     length (result_ids rs) = length (filter (\<lambda>r. r \<noteq> None) rs)"
proof (induction ds arbitrary: st rs st')
  case Nil
  then show ?case by (simp add: result_ids_def)
next
  case (Cons a ds)
  obtain ow rq where a: "a = (ow, rq)" by (cases a)
  obtain out st1 where first: "dispatch env ow rq [] st = (out, st1)"
    by (cases "dispatch env ow rq [] st")
  obtain rs1 st2 where rest: "dispatches env ds st1 = (rs1, st2)"
    by (cases "dispatches env ds st1")
  from Cons.prems a first rest have rs: "rs = out # rs1" by simp
  have split: "result_ids (out # rs1) = result_ids [out] @ result_ids rs1"
    by (simp add: result_ids_def)
  have "length (result_ids [out]) = (if out = None then 0 else 1)"
  proof (cases out)
    case None
    then show ?thesis by (simp add: result_ids_def)
  next
    case (Some r)
    with first dispatch_has_id [of env ow rq "[]" st r st1] show ?thesis
      by (auto simp: result_ids_def)
  qed
  with Cons.IH [OF rest] show ?case unfolding rs split by simp
qed

lemma digits_small:
  "digits 0 = ''0''" "digits (Suc 0) = ''1''" "digits (Suc (Suc 0)) = ''2''"
  "digits (Suc (Suc (Suc 0))) = ''3''"
  by code_simp+

lemmas ex_defs = example_env_def example_config_def example_handler_def failing_handler_def
  functions_owner_def user_owner_def hidden_owner_def initial_state_def example_agent_request_def
  example_result_def

lemmas res_defs = resolve_def resolver_def strip.simps white_space_def attached_descriptor_def
  explicit_command_def no_input_default_def intent_classification_def
  registry_default_def get_command_def get_def intent_candidates_def trim_def gating_def

text \<open>
  Claim C5. A request whose explicit command names a command of the owner's registry
  resolves to exactly that command, by the first rule, and the run of the resolver
  makes no call of the classifier; the prompt, the classifier and the flag that
  disables intent detection have no part in it.
\<close>

theorem explicit_command_overrides:
  assumes "command rq = Some n" and "get_command ow n = Some c"
  shows "resolver env ow rq = \<lparr>selected = Some (ExplicitCommand, c), classifierCalls = []\<rparr>
     \<and> resolve env ow rq = Some (ExplicitCommand, c)
     \<and> name (descriptor c) = n
     \<and> resolver env' (Owner (commands ow) (noInput ow) (default_fallback ow) flag)
          (rq\<lparr>userPrompt := p\<rparr>)
        = \<lparr>selected = Some (ExplicitCommand, c), classifierCalls = []\<rparr>"
proof -
  from assms have a: "resolver env ow rq
      = \<lparr>selected = Some (ExplicitCommand, c), classifierCalls = []\<rparr>"
    by (simp add: resolver_def explicit_command_def)
  then have a': "resolve env ow rq = Some (ExplicitCommand, c)"
    by (simp add: resolve_def)
  from assms(2) have b: "name (descriptor c) = n" by (rule get_command_name)
  from assms(2) have "get_command (Owner (commands ow) (noInput ow) (default_fallback ow) flag) n = Some c"
    by (simp add: get_command_def)
  with assms(1) have c: "resolver env' (Owner (commands ow) (noInput ow) (default_fallback ow) flag)
          (rq\<lparr>userPrompt := p\<rparr>)
        = \<lparr>selected = Some (ExplicitCommand, c), classifierCalls = []\<rparr>"
    by (simp add: resolver_def explicit_command_def)
  from a a' b c show ?thesis by blast
qed

theorem explicit_command_overrides_witness:
  "resolver example_env user_owner (example_agent_request (Some ''help'') ''functions'')
     = \<lparr>selected = Some (ExplicitCommand,
                         Leaf (example_config ''help'' None) (example_handler ''help'')),
        classifierCalls = []\<rparr>
   \<and> resolver example_env user_owner (example_agent_request None ''functions'')
     = \<lparr>selected = Some (IntentClassification,
                         Mounted (example_config ''functions'' None) functions_owner),
        classifierCalls = [(''functions'', [(''functions'', ''functions''), (''help'', ''help'')])]\<rparr>"
proof -
  have c: "command (example_agent_request (Some ''help'') ''functions'') = Some ''help''"
    by (simp add: example_agent_request_def)
  have g: "get_command user_owner ''help''
      = Some (Leaf (example_config ''help'' None) (example_handler ''help''))"
    by (simp add: user_owner_def get_command_def get_def example_config_def)
  have other: "resolver example_env user_owner (example_agent_request None ''functions'')
     = \<lparr>selected = Some (IntentClassification,
                         Mounted (example_config ''functions'' None) functions_owner),
        classifierCalls = [(''functions'', [(''functions'', ''functions''), (''help'', ''help'')])]\<rparr>"
    by (simp add: ex_defs res_defs)
  from explicit_command_overrides [OF c g, of example_env] other show ?thesis by blast
qed

text \<open>
  Claim C7. When the handler of the selected command throws, the owner's
  \<^verbatim>\<open>handleRequestOrPrompt\<close> returns \<^verbatim>\<open>undefined\<close>, the value it returns when no
  command matched; the exception is logged and not propagated. An owner in which the
  failing owner is mounted returns \<^verbatim>\<open>undefined\<close> as well, and no call of an owner
  throws.
\<close>

theorem handler_failure_is_unresolved:
  assumes "resolve env ow rq = Some (rl, Leaf d h)"
      and "gating env d = None"
      and "h rq (chain @ [name d]) (world st) = (Inl e, w')"
  shows "handleRequestOrPrompt (slashCommandsOwner env ow) rq chain st
           = (Inr None, st\<lparr>world := w', errorLog := errorLog st @ [e]\<rparr>)
     \<and> (resolve env ow2 rq2 = None \<longrightarrow>
          handleRequestOrPrompt (slashCommandsOwner env ow2) rq2 chain2 st2 = (Inr None, st2))
     \<and> (resolve env ow3 rq = Some (rl3, Mounted d3 ow) \<and> gating env d3 = None \<and>
          chain = chain3 @ [name d3] \<longrightarrow>
          fst (handleRequestOrPrompt (slashCommandsOwner env ow3) rq chain3 st) = Inr None)
     \<and> (\<exists>out st4. handleRequestOrPrompt (slashCommandsOwner env ow4) rq4 chain4 st3 = (Inr out, st4))"
proof -
  from assms have run: "dispatch env ow rq chain st
      = (None, st\<lparr>world := w', errorLog := errorLog st @ [e]\<rparr>)"
    by (simp add: dispatch.simps [of env ow rq chain st])
  then have a: "handleRequestOrPrompt (slashCommandsOwner env ow) rq chain st
           = (Inr None, st\<lparr>world := w', errorLog := errorLog st @ [e]\<rparr>)"
    by (simp add: slashCommandsOwner_handle)
  have b: "resolve env ow2 rq2 = None \<longrightarrow>
          handleRequestOrPrompt (slashCommandsOwner env ow2) rq2 chain2 st2 = (Inr None, st2)"
    by (simp add: slashCommandsOwner_handle dispatch.simps [of env ow2 rq2 chain2 st2])
  have c: "resolve env ow3 rq = Some (rl3, Mounted d3 ow) \<and> gating env d3 = None \<and>
          chain = chain3 @ [name d3] \<longrightarrow>
          fst (handleRequestOrPrompt (slashCommandsOwner env ow3) rq chain3 st) = Inr None"
    using run
    by (auto simp: slashCommandsOwner_handle dispatch.simps [of env ow3 rq chain3 st])
  have d: "\<exists>out st4. handleRequestOrPrompt (slashCommandsOwner env ow4) rq4 chain4 st3 = (Inr out, st4)"
    by (simp add: slashCommandsOwner_handle)
  from a b c d show ?thesis by blast
qed

theorem handler_failure_is_unresolved_witness:
  "handleRequestOrPrompt (slashCommandsOwner example_env functions_owner)
       (example_agent_request (Some ''functions'') ''deploy'') [''functions''] initial_state
     = (Inr None, initial_state\<lparr>world := 1, errorLog := [Thrown ''deployment failed'']\<rparr>)
   \<and> handleRequestOrPrompt (slashCommandsOwner example_env hidden_owner)
       (example_agent_request None ''deploy'') [] initial_state = (Inr None, initial_state)
   \<and> fst (handleRequestOrPrompt (slashCommandsOwner example_env user_owner)
       (example_agent_request (Some ''functions'') ''deploy'') [] initial_state) = Inr None"
proof -
  let ?rq = "example_agent_request (Some ''functions'') ''deploy''"
  have r: "resolve example_env functions_owner ?rq
      = Some (IntentClassification, Leaf (example_config ''deploy'' None) failing_handler)"
    by (simp add: ex_defs res_defs)
  have g: "gating example_env (example_config ''deploy'' None) = None"
    by (simp add: gating_def example_config_def)
  have n: "[''functions''] = [] @ [name (example_config ''functions'' None)]"
    by (simp add: example_config_def)
  have h: "failing_handler ?rq ([''functions''] @ [name (example_config ''deploy'' None)])
      (world initial_state) = (Inl (Thrown ''deployment failed''), 1)"
    by (simp add: failing_handler_def initial_state_def)
  have r2: "resolve example_env hidden_owner (example_agent_request None ''deploy'') = None"
    by (simp add: ex_defs res_defs)
  have r3: "resolve example_env user_owner ?rq
      = Some (ExplicitCommand, Mounted (example_config ''functions'' None) functions_owner)"
    by (simp add: ex_defs res_defs)
  have g3: "gating example_env (example_config ''functions'' None) = None"
    by (simp add: gating_def example_config_def)
  have l: "errorLog initial_state @ [Thrown ''deployment failed''] = [Thrown ''deployment failed'']"
    by (simp add: initial_state_def)
  note t = handler_failure_is_unresolved [where ?ow2.0 = hidden_owner
      and ?rq2.0 = "example_agent_request None ''deploy''" and ?chain2.0 = "[]"
      and ?st2.0 = initial_state and ?ow3.0 = user_owner and ?rl3.0 = ExplicitCommand
      and ?d3.0 = "example_config ''functions'' None" and ?chain3.0 = "[]"
      and ?ow4.0 = hidden_owner and ?rq4.0 = "example_agent_request None ''deploy''"
      and ?chain4.0 = "[]" and ?st3.0 = initial_state, OF r g h]
  from t l have w1: "handleRequestOrPrompt (slashCommandsOwner example_env functions_owner)
       ?rq [''functions''] initial_state
     = (Inr None, initial_state\<lparr>world := 1, errorLog := [Thrown ''deployment failed'']\<rparr>)"
    by simp
  from t r2 have w2: "handleRequestOrPrompt (slashCommandsOwner example_env hidden_owner)
       (example_agent_request None ''deploy'') [] initial_state = (Inr None, initial_state)"
    by blast
  from t r3 g3 n have w3: "fst (handleRequestOrPrompt (slashCommandsOwner example_env user_owner)
       ?rq [] initial_state) = Inr None"
    by blast
  from w1 w2 w3 show ?thesis by blast
qed

text \<open>
  Claim C8. The results of any sequence of dispatches carry pairwise distinct result
  identifiers, one for each dispatch that returns a result, each generated during its
  dispatch. The follow-up lookup returns the cached entry for a result whose identifier
  is in the cache (after a dispatch, the follow-ups of the result just returned), and
  "no follow-up", not an error, for a result whose identifier is unknown or absent.
\<close>

theorem result_ids_fresh_and_cached:
  "distinct (result_ids (fst (dispatches env ds st)))
   \<and> length (result_ids (fst (dispatches env ds st)))
       = length (filter (\<lambda>r. r \<noteq> None) (fst (dispatches env ds st)))
   \<and> (dispatch env ow rq chain st = (Some r, st') \<longrightarrow>
        (\<exists>k. resultId (metadata (chatAgentResult r)) = Some (digits k)
           \<and> nextResultId st \<le> k \<and> k < nextResultId st'))
   \<and> (dispatch env ow rq chain st = (Some r, st') \<and> 0 < cacheCapacity env \<longrightarrow>
        getFollowUpForLastHandledSlashCommand (slashCommandsOwner env ow) (chatAgentResult r) tok st'
          = (Inr (followUp r), st'))
   \<and> (resultId (metadata result) = Some rid \<and> map_of (recentResults st) rid = Some entry \<longrightarrow>
        getFollowUpForLastHandledSlashCommand (slashCommandsOwner env ow) result tok st
          = (Inr entry, st))
   \<and> (resultId (metadata result) = Some rid \<and> map_of (recentResults st) rid = None \<longrightarrow>
        getFollowUpForLastHandledSlashCommand (slashCommandsOwner env ow) result tok st
          = (Inr None, st))
   \<and> (resultId (metadata result) = None \<longrightarrow>
        getFollowUpForLastHandledSlashCommand (slashCommandsOwner env ow) result tok st
          = (Inr None, st))"
proof -
  obtain rs st2 where run: "dispatches env ds st = (rs, st2)"
    by (cases "dispatches env ds st")
  from dispatches_ids [OF run] have a: "distinct (result_ids (fst (dispatches env ds st)))"
    by (simp add: run)
  from dispatches_have_ids [OF run]
  have b: "length (result_ids (fst (dispatches env ds st)))
       = length (filter (\<lambda>r. r \<noteq> None) (fst (dispatches env ds st)))"
    by (simp add: run)
  have c: "dispatch env ow rq chain st = (Some r, st') \<longrightarrow>
        (\<exists>k. resultId (metadata (chatAgentResult r)) = Some (digits k)
           \<and> nextResultId st \<le> k \<and> k < nextResultId st')"
    using dispatch_has_id [of env ow rq chain st r st'] by blast
  have d: "dispatch env ow rq chain st = (Some r, st') \<and> 0 < cacheCapacity env \<longrightarrow>
        getFollowUpForLastHandledSlashCommand (slashCommandsOwner env ow) (chatAgentResult r) tok st'
          = (Inr (followUp r), st')"
    using dispatch_caches [of env ow rq chain st r st']
    by (simp add: slashCommandsOwner_followUp)
  have e: "resultId (metadata result) = Some rid \<and> map_of (recentResults st) rid = Some entry \<longrightarrow>
        getFollowUpForLastHandledSlashCommand (slashCommandsOwner env ow) result tok st
          = (Inr entry, st)"
    by (simp add: slashCommandsOwner_followUp cached_followUp_def)
  have f: "resultId (metadata result) = Some rid \<and> map_of (recentResults st) rid = None \<longrightarrow>
        getFollowUpForLastHandledSlashCommand (slashCommandsOwner env ow) result tok st
          = (Inr None, st)"
    by (simp add: slashCommandsOwner_followUp cached_followUp_def)
  have g: "resultId (metadata result) = None \<longrightarrow>
        getFollowUpForLastHandledSlashCommand (slashCommandsOwner env ow) result tok st
          = (Inr None, st)"
    by (simp add: slashCommandsOwner_followUp cached_followUp_def)
  from a b c d e f g show ?thesis by blast
qed

theorem result_ids_fresh_and_cached_witness:
  "result_ids (fst (dispatches example_env
     [(user_owner, example_agent_request (Some ''functions'') ''create''),
      (hidden_owner, example_agent_request None ''create''),
      (user_owner, example_agent_request None ''  '')] initial_state)) = [''1'', ''2'']
   \<and> distinct [''1'', ''2'']
   \<and> getFollowUpForLastHandledSlashCommand (slashCommandsOwner example_env user_owner)
       \<lparr>errorDetails = None,
        metadata = \<lparr>handlerChain = Some [''help''], resultId = Some ''0'',
                    additional = [(''tag'', ''help'')]\<rparr>\<rparr> False
       \<lparr>world = 1, nextResultId = 1, recentResults = [(''0'', Some example_followUps)],
        errorLog = []\<rparr>
     = (Inr (Some example_followUps),
        \<lparr>world = 1, nextResultId = 1, recentResults = [(''0'', Some example_followUps)],
         errorLog = []\<rparr>)
   \<and> getFollowUpForLastHandledSlashCommand (slashCommandsOwner example_env user_owner)
       \<lparr>errorDetails = None,
        metadata = \<lparr>handlerChain = Some [''help''], resultId = Some ''7'', additional = []\<rparr>\<rparr>
       False initial_state
     = (Inr None, initial_state)
   \<and> getFollowUpForLastHandledSlashCommand (slashCommandsOwner example_env user_owner)
       (chatAgentResult (example_result ''none'' None)) False initial_state
     = (Inr None, initial_state)"
proof -
  let ?ds = "[(user_owner, example_agent_request (Some ''functions'') ''create''),
      (hidden_owner, example_agent_request None ''create''),
      (user_owner, example_agent_request None ''  '')]"
  let ?r = "\<lparr>chatAgentResult =
              \<lparr>errorDetails = None,
               metadata = \<lparr>handlerChain = Some [''help''], resultId = Some ''0'',
                           additional = [(''tag'', ''help'')]\<rparr>\<rparr>,
            followUp = Some example_followUps\<rparr>"
  let ?st = "\<lparr>world = 1, nextResultId = 1, recentResults = [(''0'', Some example_followUps)],
         errorLog = []\<rparr> :: nat dispatch_state"
  let ?unknown = "\<lparr>errorDetails = None,
        metadata = \<lparr>handlerChain = Some [''help''], resultId = Some ''7'', additional = []\<rparr>\<rparr>"
  note t = result_ids_fresh_and_cached
  have ids: "result_ids (fst (dispatches example_env ?ds initial_state)) = [''1'', ''2'']"
    by (simp add: dispatch.simps ex_defs res_defs record_result_def Let_def digits_small
        chain_fragment_def result_ids_def)
  from t [of example_env ?ds initial_state] ids
  have w1: "distinct [''1'', ''2'']" by simp
  have run: "dispatch example_env user_owner (example_agent_request None ''  '') [] initial_state
      = (Some ?r, ?st)"
    by (simp add: dispatch.simps ex_defs res_defs record_result_def Let_def digits_small)
  have cap: "0 < cacheCapacity example_env" by (simp add: example_env_def)
  from t [of example_env "[]" initial_state user_owner "example_agent_request None ''  ''" "[]"
      ?r ?st False] run cap
  have w2: "getFollowUpForLastHandledSlashCommand (slashCommandsOwner example_env user_owner)
      (chatAgentResult ?r) False ?st = (Inr (followUp ?r), ?st)"
    by blast
  have unknown: "resultId (metadata ?unknown) = Some ''7''
      \<and> map_of (recentResults initial_state) ''7'' = None"
    by (simp add: initial_state_def)
  from t [where ?result.0 = ?unknown and ?rid.0 = "''7''" and st = initial_state and env = example_env
      and ow = user_owner and tok = False] unknown
  have w3: "getFollowUpForLastHandledSlashCommand (slashCommandsOwner example_env user_owner)
      ?unknown False initial_state = (Inr None, initial_state)"
    by blast
  have noid: "resultId (metadata (chatAgentResult (example_result ''none'' None))) = None"
    by (simp add: example_result_def)
  from t [where ?result.0 = "chatAgentResult (example_result ''none'' None)" and st = initial_state
      and env = example_env and ow = user_owner and tok = False] noid
  have w4: "getFollowUpForLastHandledSlashCommand (slashCommandsOwner example_env user_owner)
      (chatAgentResult (example_result ''none'' None)) False initial_state = (Inr None, initial_state)"
    by blast
  from ids w1 w2 w3 w4 show ?thesis by simp
qed



end
